theory Spec2Isabelle
  imports Complex_Main "HOL-Library.List_Lexorder" "HOL-Library.Char_ord" "HOL-Library.AList"
begin

section \<open>Transcript normalization of agent\_replay (parser.py, models.py)\<close>

text \<open>
  The parser reads line-delimited JSON transcripts of three dialects (Claude Code, Codex
  CLI, Gemini CLI) and turns them into a \<open>Session\<close> of events and agents. The Python code
  is dynamically typed: every value read from a file is whatever \<open>json.loads\<close> returned,
  and an operation applied to a value of the wrong kind raises. The embedding therefore
  works on a datatype of JSON values, and every function that can raise returns
  \<open>error + 'a\<close> with \<open>Inl\<close> the exception.

  Scope of the value model: strings are lists of \<open>char\<close>, one \<open>char\<close> per character
  (so characters are limited to those below 256, where the order of \<open>char\<close> is the order
  of code points); an integer is unbounded; a float is a rational (every finite double
  is one; the negative zero is not told from zero), an infinity or a NaN, all of which
  \<open>json.loads\<close> accepts; an object is an association list that holds each key once.
\<close>

subsection \<open>JSON values and the Python operations applied to them\<close>

text \<open>
  A NaN is not equal to itself, but \<open>json.loads\<close> returns one and the same object
  (\<open>json.decoder.NaN\<close>) for every NaN it reads, and the membership test of a set tries
  identity before equality: in a set a NaN of a file is an element like any other.
\<close>

datatype pyfloat = Finite rat | PosInf | NegInf | NaN

datatype json =
    JNull
  | JBool bool
  | JInt int
  | JFloat pyfloat
  | JStr string
  | JArr "json list"
  | JObj "(string \<times> json) list"

datatype error =
    OSError | JSONDecodeError | AttributeError | TypeError | KeyError | OverflowError

definition bindE :: "error + 'a \<Rightarrow> ('a \<Rightarrow> error + 'b) \<Rightarrow> error + 'b" where
  "bindE m f = (case m of Inl e \<Rightarrow> Inl e | Inr x \<Rightarrow> f x)"

text \<open>A \<open>for\<close> loop whose body may raise: the first exception ends the loop.\<close>

fun foldE :: "('s \<Rightarrow> 'a \<Rightarrow> error + 's) \<Rightarrow> 's \<Rightarrow> 'a list \<Rightarrow> error + 's" where
  "foldE f s [] = Inr s"
| "foldE f s (x # xs) = bindE (f s x) (\<lambda>s'. foldE f s' xs)"

text \<open>Truth value of a JSON value in a Python condition.\<close>

fun truthy :: "json \<Rightarrow> bool" where
  "truthy JNull = False"
| "truthy (JBool b) = b"
| "truthy (JInt n) = (n \<noteq> 0)"
| "truthy (JFloat f) = (f \<noteq> Finite 0)"
| "truthy (JStr s) = (s \<noteq> [])"
| "truthy (JArr xs) = (xs \<noteq> [])"
| "truthy (JObj kvs) = (kvs \<noteq> [])"

definition py_or :: "json \<Rightarrow> json \<Rightarrow> json" where
  "py_or a b = (if truthy a then a else b)"

fun is_dict :: "json \<Rightarrow> bool" where
  "is_dict (JObj kvs) = True"
| "is_dict _ = False"

fun is_list :: "json \<Rightarrow> bool" where
  "is_list (JArr xs) = True"
| "is_list _ = False"

fun is_str :: "json \<Rightarrow> bool" where
  "is_str (JStr s) = True"
| "is_str _ = False"

fun str_of :: "json \<Rightarrow> string" where
  "str_of (JStr s) = s"
| "str_of _ = []"

text \<open>\<open>x.get(k, d)\<close>: only a dict has the method.\<close>

fun dget :: "json \<Rightarrow> string \<Rightarrow> json \<Rightarrow> error + json" where
  "dget (JObj kvs) k d = Inr (case map_of kvs k of Some v \<Rightarrow> v | None \<Rightarrow> d)"
| "dget _ k d = Inl AttributeError"

text \<open>\<open>k in x\<close> for a dict that is known to be one.\<close>

fun has_key :: "json \<Rightarrow> string \<Rightarrow> bool" where
  "has_key (JObj kvs) k = (map_of kvs k \<noteq> None)"
| "has_key _ k = False"

fun contains :: "string \<Rightarrow> string \<Rightarrow> bool" where
  "contains k [] = (k = [])"
| "contains k (c # cs) = (take (length k) (c # cs) = k \<or> contains k cs)"

text \<open>
  \<open>k in x\<close> for an arbitrary value: key of a dict, element of a list, substring of a
  string; other values are not iterable.
\<close>

fun py_in :: "string \<Rightarrow> json \<Rightarrow> error + bool" where
  "py_in k (JObj kvs) = Inr (map_of kvs k \<noteq> None)"
| "py_in k (JArr xs) = Inr (JStr k \<in> set xs)"
| "py_in k (JStr s) = Inr (contains k s)"
| "py_in k _ = Inl TypeError"

text \<open>\<open>x[k]\<close> with a string key.\<close>

fun py_getitem :: "json \<Rightarrow> string \<Rightarrow> error + json" where
  "py_getitem (JObj kvs) k = (case map_of kvs k of Some v \<Rightarrow> Inr v | None \<Rightarrow> Inl KeyError)"
| "py_getitem _ k = Inl TypeError"

text \<open>\<open>for b in x\<close>: a string yields its characters, a dict its keys.\<close>

fun py_iter :: "json \<Rightarrow> error + json list" where
  "py_iter (JArr xs) = Inr xs"
| "py_iter (JStr s) = Inr (map (\<lambda>c. JStr [c]) s)"
| "py_iter (JObj kvs) = Inr (map (\<lambda>kv. JStr (fst kv)) kvs)"
| "py_iter _ = Inl TypeError"

text \<open>\<open>str.strip()\<close>: the whitespace characters below 256 are those of \<open>str.isspace\<close>.\<close>

definition is_space :: "char \<Rightarrow> bool" where
  "is_space c = ((of_char c :: nat) \<in> {9, 10, 11, 12, 13, 28, 29, 30, 31, 32, 133, 160})"

definition strip :: "string \<Rightarrow> string" where
  "strip s = rev (dropWhile is_space (rev (dropWhile is_space s)))"

fun py_strip :: "json \<Rightarrow> error + string" where
  "py_strip (JStr s) = Inr (strip s)"
| "py_strip _ = Inl AttributeError"

definition lower_char :: "char \<Rightarrow> char" where
  "lower_char c = (let n = (of_char c :: nat) in
     if (65 \<le> n \<and> n \<le> 90) \<or> (192 \<le> n \<and> n \<le> 222 \<and> n \<noteq> 215) then char_of (n + 32) else c)"

fun py_lower :: "json \<Rightarrow> error + string" where
  "py_lower (JStr s) = Inr (map lower_char s)"
| "py_lower _ = Inl AttributeError"

text \<open>\<open>x[:n]\<close>: strings and lists can be sliced.\<close>

fun py_slice :: "nat \<Rightarrow> json \<Rightarrow> error + json" where
  "py_slice n (JStr s) = Inr (JStr (take n s))"
| "py_slice n (JArr xs) = Inr (JArr (take n xs))"
| "py_slice n _ = Inl TypeError"

fun py_len :: "json \<Rightarrow> error + nat" where
  "py_len (JStr s) = Inr (length s)"
| "py_len (JArr xs) = Inr (length xs)"
| "py_len (JObj kvs) = Inr (length kvs)"
| "py_len _ = Inl TypeError"

fun join_nl :: "string list \<Rightarrow> string" where
  "join_nl [] = []"
| "join_nl [s] = s"
| "join_nl (s # t # ss) = s @ [CHR 0x0A] @ join_nl (t # ss)"

text \<open>\<open>"\n".join(parts)\<close>: every part must be a string.\<close>

definition py_join :: "json list \<Rightarrow> error + string" where
  "py_join parts = (if list_all is_str parts then Inr (join_nl (map str_of parts)) else Inl TypeError)"

text \<open>
  Membership in a Python set hashes the value: lists and dicts are unhashable;
  \<open>True\<close>/\<open>False\<close> are the same set elements as \<open>1\<close>/\<open>0\<close>, and so is a float
  that is a whole number as that integer.
\<close>

fun py_hash :: "json \<Rightarrow> error + json" where
  "py_hash (JArr xs) = Inl TypeError"
| "py_hash (JObj kvs) = Inl TypeError"
| "py_hash (JBool b) = Inr (JInt (if b then 1 else 0))"
| "py_hash (JFloat (Finite q)) = Inr (if of_int \<lfloor>q\<rfloor> = q then JInt \<lfloor>q\<rfloor> else JFloat (Finite q))"
| "py_hash v = Inr v"

subsection \<open>models.py\<close>

datatype EventType =
    SPAWN | THINK | TOOL_CALL | TOOL_RESULT | FILE_CREATE | FILE_UPDATE | FILE_READ
  | BASH | WEB_SEARCH | TEXT | ERROR | COMPLETE | USER

text \<open>
  The dataclasses declare field types but do not check them: a field holds the value the
  parser stored. Fields that the parser fills from the file are \<open>json\<close>; the agent id of
  an event is only ever assigned a string, and the counters of an agent are numbers: the
  integer 0 to which numbers of the file are added.
\<close>

record Event =
  timestamp :: json
  type_ev :: EventType
  agent_id :: string
  tool_name :: json
  file_path :: json
  input_tokens :: json
  output_tokens :: json
  cache_read_tokens :: json
  content :: json

record Agent =
  id_ag :: string
  name_ag :: string
  is_subagent :: bool
  color :: string
  spawn_time :: json
  input_tokens_ag :: json
  output_tokens_ag :: json
  cache_read_tokens_ag :: json

record Session =
  id_se :: json
  slug :: json
  version :: json
  branch :: json
  start_time :: json
  agents :: "(string \<times> Agent) list"
  events :: "Event list"

text \<open>Constructors with the defaults of the dataclasses.\<close>

definition mk_event :: "json \<Rightarrow> EventType \<Rightarrow> string \<Rightarrow> json \<Rightarrow> Event" where
  "mk_event ts ty aid c =
     \<lparr>timestamp = ts, type_ev = ty, agent_id = aid, tool_name = JStr [], file_path = JStr [],
      input_tokens = JInt 0, output_tokens = JInt 0, cache_read_tokens = JInt 0, content = c\<rparr>"

definition mk_agent :: "string \<Rightarrow> string \<Rightarrow> bool \<Rightarrow> string \<Rightarrow> Agent" where
  "mk_agent i n sub col =
     \<lparr>id_ag = i, name_ag = n, is_subagent = sub, color = col, spawn_time = JStr [],
      input_tokens_ag = JInt 0, output_tokens_ag = JInt 0, cache_read_tokens_ag = JInt 0\<rparr>"

definition mk_session :: "json \<Rightarrow> Session" where
  "mk_session i =
     \<lparr>id_se = i, slug = JStr [], version = JStr [], branch = JStr [], start_time = JStr [],
      agents = [], events = []\<rparr>"

definition append_event :: "Session \<Rightarrow> Event \<Rightarrow> Session" where
  "append_event s e = s\<lparr>events := events s @ [e]\<rparr>"

subsection \<open>Library functions that are parameters of the model\<close>

text \<open>
  Library functions whose results the parser only stores, truncates or passes on:
  \<open>json.dumps\<close> and the \<open>repr\<close> that \<open>str()\<close> gives for a value that is not a string;
  the sum of two floats and the conversion of an integer to a float (which raises
  \<open>OverflowError\<close> for an integer beyond the range of a float); and \<open>list.sort\<close> for the
  keys on which the model does not compute it (see \<open>sort_events\<close> below).
\<close>

record builtins =
  json_dumps :: "json \<Rightarrow> string"
  py_repr :: "json \<Rightarrow> string"
  float_add :: "pyfloat \<Rightarrow> pyfloat \<Rightarrow> pyfloat"
  int_to_float :: "int \<Rightarrow> error + pyfloat"
  list_sort :: "Event list \<Rightarrow> error + Event list"

fun py_str :: "builtins \<Rightarrow> json \<Rightarrow> string" where
  "py_str B (JStr s) = s"
| "py_str B v = py_repr B v"

text \<open>The numbers: integers, booleans (which count as 0 and 1) and floats.\<close>

fun is_num :: "json \<Rightarrow> bool" where
  "is_num (JInt n) = True"
| "is_num (JBool b) = True"
| "is_num (JFloat f) = True"
| "is_num _ = False"

fun is_float :: "json \<Rightarrow> bool" where
  "is_float (JFloat f) = True"
| "is_float _ = False"

fun int_of :: "json \<Rightarrow> int" where
  "int_of (JInt n) = n"
| "int_of (JBool b) = (if b then 1 else 0)"
| "int_of _ = 0"

fun to_float :: "builtins \<Rightarrow> json \<Rightarrow> error + pyfloat" where
  "to_float B (JFloat f) = Inr f"
| "to_float B (JInt n) = int_to_float B n"
| "to_float B (JBool b) = Inr (Finite (if b then 1 else 0))"
| "to_float B v = Inl TypeError"

text \<open>
  \<open>n += x\<close> on a counter: the sum of two integers is an integer, and with a float on
  either side both are converted and the sum is a float. Anything but a number cannot be
  added to a number.
\<close>

definition py_add :: "builtins \<Rightarrow> json \<Rightarrow> json \<Rightarrow> error + json" where
  "py_add B a x =
     (if \<not> is_num a \<or> \<not> is_num x then Inl TypeError
      else if is_float a \<or> is_float x then
        bindE (to_float B a) (\<lambda>fa.
        bindE (to_float B x) (\<lambda>fx. Inr (JFloat (float_add B fa fx))))
      else Inr (JInt (int_of a + int_of x)))"

text \<open>
  \<open>agent.input_tokens += i\<close> and its two companions on the agent stored under a key, when
  there is one (\<open>if agent:\<close>).
\<close>

definition add_tokens :: "builtins \<Rightarrow> string \<Rightarrow> json \<Rightarrow> json \<Rightarrow> json \<Rightarrow> Session \<Rightarrow> error + Session" where
  "add_tokens B k i out c s =
     (case map_of (agents s) k of
        None \<Rightarrow> Inr s
      | Some a \<Rightarrow>
          bindE (py_add B (input_tokens_ag a) i) (\<lambda>i'.
          bindE (py_add B (output_tokens_ag a) out) (\<lambda>o'.
          bindE (py_add B (cache_read_tokens_ag a) c) (\<lambda>c'.
            Inr (s\<lparr>agents := AList.update k
              (a\<lparr>input_tokens_ag := i', output_tokens_ag := o', cache_read_tokens_ag := c'\<rparr>)
              (agents s)\<rparr>)))))"

subsection \<open>Files as the parser sees them\<close>

text \<open>
  One physical line of a file: blank after \<open>strip()\<close>, rejected by \<open>json.loads\<close>
  (\<open>JSONDecodeError\<close>), or the value \<open>json.loads\<close> returned.
\<close>

datatype line = Blank | Invalid | Record json

text \<open>The outcome of \<open>open\<close> followed by \<open>json.load\<close> on the whole file.\<close>

datatype document = Unreadable | Malformed | Document json

record subagent_file =
  sa_stem :: string
  sa_lines :: "line list option"

text \<open>
  What one call of \<open>parse\<close> observes of its path: the resolved path, the modification
  time (\<open>None\<close> when \<open>stat\<close> raises \<open>OSError\<close>), suffix and stem of the file name, the
  lines of the file (\<open>None\<close> when \<open>open\<close> raises \<open>OSError\<close>), the file read as one JSON
  document, and for a directory name \<open>d\<close> the sorted \<open>agent-*.jsonl\<close> files of
  \<open>parent / d / "subagents"\<close> (\<open>None\<close> when that is not a directory). The file is taken
  to decode as UTF-8 and not to change during the call.
\<close>

record transcript =
  resolved :: string
  st_mtime :: "int option"
  suffix :: string
  stem :: string
  lines_of :: "line list option"
  doc :: document
  subagents_dir :: "string \<Rightarrow> subagent_file list option"

fun records_of :: "line list \<Rightarrow> json list" where
  "records_of [] = []"
| "records_of (Record r # ls) = r # records_of ls"
| "records_of (l # ls) = records_of ls"

definition read_jsonl :: "line list option \<Rightarrow> error + json list" where
  "read_jsonl f = (case f of None \<Rightarrow> Inl OSError | Some ls \<Rightarrow> Inr (records_of ls))"

subsection \<open>auto\_detect\<close>

definition detect_document :: "json \<Rightarrow> bool" where
  "detect_document data =
     (if is_dict data \<and> has_key data ''messages'' then True
      else (case data of
              JArr (first # rest) \<Rightarrow>
                is_dict first \<and>
                (case dget first ''role'' JNull of
                   Inr r \<Rightarrow> r = JStr ''user'' \<or> r = JStr ''model''
                 | Inl e \<Rightarrow> False)
            | _ \<Rightarrow> False))"

definition detect_record :: "json \<Rightarrow> error + string option" where
  "detect_record rec =
     bindE (dget rec ''type'' JNull) (\<lambda>ty.
       if ty = JStr ''file-history-snapshot'' then Inr (Some ''claude_code'')
       else if has_key rec ''sessionId'' \<and>
               (ty = JStr ''user'' \<or> ty = JStr ''assistant'' \<or> ty = JStr ''progress'')
         then Inr (Some ''claude_code'')
       else if ty = JStr ''session_meta'' \<or> ty = JStr ''response_item'' \<or> ty = JStr ''event_msg''
         then Inr (Some ''codex'')
       else if ty = JStr ''message'' \<and> has_key rec ''role'' then Inr (Some ''codex'')
       else if ty = JStr ''session_metadata'' then Inr (Some ''gemini'')
       else if (ty = JStr ''user'' \<or> ty = JStr ''gemini'') \<and> has_key rec ''content''
               \<and> \<not> has_key rec ''sessionId''
         then Inr (Some ''gemini'')
       else if ty = JStr ''turn_context'' then Inr (Some ''codex'')
       else Inr None)"

fun detect_lines :: "line list \<Rightarrow> error + string" where
  "detect_lines [] = Inr ''codex''"
| "detect_lines (Record rec # ls) =
     bindE (detect_record rec) (\<lambda>r. case r of Some fmt \<Rightarrow> Inr fmt | None \<Rightarrow> detect_lines ls)"
| "detect_lines (l # ls) = detect_lines ls"

definition auto_detect :: "transcript \<Rightarrow> error + string" where
  "auto_detect t =
     (if suffix t = ''.json'' \<and> (case doc t of Document data \<Rightarrow> detect_document data | _ \<Rightarrow> False)
      then Inr ''gemini''
      else (case lines_of t of None \<Rightarrow> Inl OSError | Some ls \<Rightarrow> detect_lines ls))"

subsection \<open>Sorting the events of a session\<close>

text \<open>
  \<open>session.events.sort(key=lambda e: e.timestamp)\<close> compares the keys with \<open><\<close>. The
  model computes it in three cases. A list of at most one event is left alone without a
  comparison. When all keys are strings, \<open><\<close> is the lexicographic order and the sort is
  the stable sort by it. When all keys are numbers and no key is smaller than the key
  before it, the list is one ascending run, which the sort finds first and leaves as it
  is; here \<open><\<close> compares the values exactly and is false whenever a NaN is on either
  side. On all other lists of keys (numbers out of order, arrays, keys of several kinds)
  the result is the one of the library function, a parameter.
\<close>

fun flt_of :: "json \<Rightarrow> pyfloat" where
  "flt_of (JFloat f) = f"
| "flt_of v = Finite (of_int (int_of v))"

fun flt_lt :: "pyfloat \<Rightarrow> pyfloat \<Rightarrow> bool" where
  "flt_lt NaN b = False"
| "flt_lt a NaN = False"
| "flt_lt (Finite a) (Finite b) = (a < b)"
| "flt_lt NegInf b = (b \<noteq> NegInf)"
| "flt_lt a PosInf = (a \<noteq> PosInf)"
| "flt_lt a b = False"

fun descends :: "pyfloat list \<Rightarrow> bool" where
  "descends (a # b # xs) = (flt_lt b a \<or> descends (b # xs))"
| "descends xs = False"

definition sort_events :: "builtins \<Rightarrow> Event list \<Rightarrow> error + Event list" where
  "sort_events B evs =
     (if length evs \<le> 1 then Inr evs
      else if list_all (\<lambda>e. is_str (timestamp e)) evs
        then Inr (sort_key (\<lambda>e. str_of (timestamp e)) evs)
      else if list_all (\<lambda>e. is_num (timestamp e)) evs
              \<and> \<not> descends (map (\<lambda>e. flt_of (timestamp e)) evs)
        then Inr evs
      else list_sort B evs)"

subsection \<open>parse\_codex\<close>

fun codex_block_parts :: "json \<Rightarrow> json list" where
  "codex_block_parts (JStr s) = [JStr s]"
| "codex_block_parts (JObj kvs) =
     [case map_of kvs ''text'' of
        Some v \<Rightarrow> v
      | None \<Rightarrow> (case map_of kvs ''content'' of Some v \<Rightarrow> v | None \<Rightarrow> JStr [])]"
| "codex_block_parts _ = []"

fun extract_codex_content :: "builtins \<Rightarrow> json \<Rightarrow> error + string" where
  "extract_codex_content B (JStr s) = Inr s"
| "extract_codex_content B (JArr blocks) =
     py_join (filter truthy (concat (map codex_block_parts blocks)))"
| "extract_codex_content B c = Inr (if truthy c then py_str B c else [])"

definition codex_tool_type :: "json \<Rightarrow> EventType" where
  "codex_tool_type tool =
     (if tool = JStr ''write_file'' \<or> tool = JStr ''create_file'' then FILE_CREATE
      else if tool = JStr ''edit_file'' \<or> tool = JStr ''patch'' then FILE_UPDATE
      else if tool = JStr ''read_file'' then FILE_READ
      else (if tool = JStr ''shell'' then BASH else TOOL_CALL))"

definition codex_response_item :: "builtins \<Rightarrow> Session \<Rightarrow> json \<Rightarrow> json \<Rightarrow> error + Session" where
  "codex_response_item B s rec ts =
     bindE (dget rec ''item'' (JObj [])) (\<lambda>item.
     bindE (dget item ''type'' (JStr [])) (\<lambda>item_type.
     bindE (dget item ''role'' (JStr [])) (\<lambda>role.
       if item_type = JStr ''message'' then
         bindE (dget item ''content'' (JArr [])) (\<lambda>c.
         bindE (extract_codex_content B c) (\<lambda>text.
           Inr (append_event s
             (mk_event ts (if role = JStr ''user'' then USER else TEXT) ''main'' (JStr text)))))
       else if item_type = JStr ''function_call'' then
         bindE (dget item ''name'' (JStr ''unknown'')) (\<lambda>tool.
         bindE (dget item ''arguments'' (JStr [])) (\<lambda>arguments.
         bindE (if truthy arguments then py_slice 500 arguments else Inr tool) (\<lambda>c.
           Inr (append_event s
             ((mk_event ts (codex_tool_type tool) ''main'' c)\<lparr>tool_name := tool\<rparr>)))))
       else if item_type = JStr ''function_call_output'' then
         bindE (dget item ''output'' (JStr [])) (\<lambda>output.
         bindE (if truthy output then py_slice 2000 output else Inr (JStr [])) (\<lambda>c.
           Inr (append_event s (mk_event ts TOOL_RESULT ''main'' c))))
       else Inr s)))"

definition codex_event_msg :: "builtins \<Rightarrow> Session \<Rightarrow> json \<Rightarrow> error + Session" where
  "codex_event_msg B s rec =
     bindE (dget rec ''msg'' (JObj [])) (\<lambda>msg.
     bindE (dget rec ''payload'' msg) (\<lambda>payload.
       if is_dict payload \<and> dget payload ''type'' JNull = Inr (JStr ''token_count'') then
         bindE (dget payload ''info'' (JObj [])) (\<lambda>info.
         bindE (dget info ''last_token_usage'' (JObj [])) (\<lambda>usage.
         bindE (dget usage ''input_tokens'' (JInt 0)) (\<lambda>in_tok.
         bindE (dget usage ''output_tokens'' (JInt 0)) (\<lambda>out_tok.
         bindE (dget usage ''cached_input_tokens'' (JInt 0)) (\<lambda>cached.
         bindE (dget usage ''cache_read_input_tokens'' (JInt 0)) (\<lambda>cache_read.
           add_tokens B ''main'' in_tok out_tok (py_or cached cache_read) s))))))
       else Inr s))"

definition codex_record :: "builtins \<Rightarrow> Session \<Rightarrow> json \<Rightarrow> error + Session" where
  "codex_record B s rec =
     bindE (dget rec ''type'' (JStr [])) (\<lambda>rec_type.
     bindE (dget rec ''timestamp'' (JStr [])) (\<lambda>ts.
       if rec_type = JStr ''session_meta'' then
         bindE (dget rec ''model'' (JStr [])) (\<lambda>m. Inr (s\<lparr>start_time := ts, version := m\<rparr>))
       else if rec_type = JStr ''response_item'' then codex_response_item B s rec ts
       else if rec_type = JStr ''message'' \<and> has_key rec ''role'' then
         bindE (dget rec ''role'' (JStr [])) (\<lambda>role.
         bindE (dget rec ''content'' (JArr [])) (\<lambda>c.
         bindE (extract_codex_content B c) (\<lambda>text.
           if role = JStr ''user'' then Inr (append_event s (mk_event ts USER ''main'' (JStr text)))
           else if role = JStr ''assistant''
             then Inr (append_event s (mk_event ts TEXT ''main'' (JStr text)))
           else Inr s)))
       else if rec_type = JStr ''event_msg'' then codex_event_msg B s rec
       else if rec_type = JStr ''turn_context'' then
         bindE (dget rec ''payload'' (JObj [])) (\<lambda>payload.
         bindE (dget payload ''model'' (JStr [])) (\<lambda>model.
           Inr (if truthy model then s\<lparr>version := model\<rparr> else s)))
       else Inr s))"

text \<open>
  The end of \<open>parse_codex\<close> and \<open>parse_gemini\<close>: sort, take the start time from the first
  event when none is set, and the spawn time of the main agent from the first event.
\<close>

definition finish_main :: "builtins \<Rightarrow> Session \<Rightarrow> error + Session" where
  "finish_main B s =
     bindE (sort_events B (events s)) (\<lambda>evs.
       Inr (case evs of
              [] \<Rightarrow> s\<lparr>events := evs\<rparr>
            | e # es \<Rightarrow>
                s\<lparr>events := evs,
                  start_time := (if truthy (start_time s) then start_time s else timestamp e),
                  agents := map (\<lambda>(k, a). if k = ''main'' then (k, a\<lparr>spawn_time := timestamp e\<rparr>) else (k, a))
                              (agents s)\<rparr>))"

definition codex_records :: "builtins \<Rightarrow> transcript \<Rightarrow> error + Session" where
  "codex_records B t =
     bindE (read_jsonl (lines_of t)) (\<lambda>recs.
       foldE (codex_record B)
         ((mk_session (JStr (stem t)))\<lparr>agents := [(''main'', mk_agent ''main'' ''Codex'' False ''green'')]\<rparr>)
         recs)"

definition parse_codex :: "builtins \<Rightarrow> transcript \<Rightarrow> error + Session" where
  "parse_codex B t = bindE (codex_records B t) (finish_main B)"

subsection \<open>parse\_gemini\<close>

definition gemini_tool_type :: "json \<Rightarrow> string \<Rightarrow> EventType" where
  "gemini_tool_type tool lowered =
     (if contains ''edit'' lowered \<or> contains ''update'' lowered then FILE_UPDATE
      else if contains ''read'' lowered then FILE_READ
      else if contains ''write'' lowered \<or> contains ''create'' lowered then FILE_CREATE
      else (if tool = JStr ''run_shell'' \<or> tool = JStr ''shell'' then BASH else TOOL_CALL))"

text \<open>
  One element of \<open>parts\<close> of a message of the legacy JSON document gives up to three
  events: its text, its function call and its function response.
\<close>

definition gemini_text_event :: "json \<Rightarrow> json \<Rightarrow> Session \<Rightarrow> json \<Rightarrow> error + Session" where
  "gemini_text_event role ts s part =
     bindE (dget part ''text'' (JStr [])) (\<lambda>text.
     bindE (py_strip text) (\<lambda>stripped.
       Inr (if stripped \<noteq> []
            then append_event s (mk_event ts (if role = JStr ''user'' then USER else TEXT) ''main'' text)
            else s)))"

definition gemini_call_event :: "builtins \<Rightarrow> json \<Rightarrow> Session \<Rightarrow> json \<Rightarrow> error + Session" where
  "gemini_call_event B ts s part =
     bindE (dget part ''functionCall'' JNull) (\<lambda>fc.
       if truthy fc \<and> is_dict fc then
         bindE (dget fc ''name'' (JStr ''unknown'')) (\<lambda>tool.
         bindE (dget fc ''args'' (JObj [])) (\<lambda>args.
         bindE (py_lower tool) (\<lambda>lowered.
           Inr (append_event s
             ((mk_event ts (gemini_tool_type tool lowered) ''main''
                (if truthy args then JStr (take 500 (json_dumps B args)) else tool))
              \<lparr>tool_name := tool\<rparr>)))))
       else Inr s)"

definition gemini_response_event :: "builtins \<Rightarrow> json \<Rightarrow> Session \<Rightarrow> json \<Rightarrow> error + Session" where
  "gemini_response_event B ts s part =
     bindE (dget part ''functionResponse'' JNull) (\<lambda>fr.
       if truthy fr \<and> is_dict fr then
         bindE (dget fr ''response'' (JObj [])) (\<lambda>response.
           Inr (append_event s
             (mk_event ts TOOL_RESULT ''main''
                (JStr (if truthy response then take 2000 (json_dumps B response) else [])))))
       else Inr s)"

definition gemini_part :: "builtins \<Rightarrow> json \<Rightarrow> json \<Rightarrow> Session \<Rightarrow> json \<Rightarrow> error + Session" where
  "gemini_part B role ts s part =
     (if \<not> is_dict part then Inr s
      else
        bindE (gemini_text_event role ts s part) (\<lambda>s1.
        bindE (gemini_call_event B ts s1 part) (\<lambda>s2.
          gemini_response_event B ts s2 part)))"

definition gemini_message :: "builtins \<Rightarrow> Session \<Rightarrow> json \<Rightarrow> error + Session" where
  "gemini_message B s msg =
     (if \<not> is_dict msg then Inr s
      else
        bindE (dget msg ''role'' (JStr [])) (\<lambda>role.
        bindE (dget msg ''parts'' (JArr [])) (\<lambda>parts.
        bindE (dget msg ''createTime'' (JStr [])) (\<lambda>created.
        bindE (dget msg ''timestamp'' created) (\<lambda>ts.
        bindE (py_iter parts) (\<lambda>ps. foldE (gemini_part B role ts) s ps))))))"

definition parse_gemini_json :: "builtins \<Rightarrow> transcript \<Rightarrow> Session \<Rightarrow> error + Session" where
  "parse_gemini_json B t s =
     (case doc t of
        Unreadable \<Rightarrow> Inl OSError
      | Malformed \<Rightarrow> Inl JSONDecodeError
      | Document data \<Rightarrow>
          bindE (if is_dict data then
                   bindE (dget data ''history'' (JArr [])) (\<lambda>history.
                   bindE (dget data ''messages'' history) (\<lambda>messages.
                   bindE (dget data ''sessionId'' (id_se s)) (\<lambda>sid.
                   bindE (dget data ''createTime'' (JStr [])) (\<lambda>created.
                   bindE (dget data ''startTime'' created) (\<lambda>start.
                     Inr (messages, s\<lparr>id_se := sid, start_time := start\<rparr>))))))
                 else if is_list data then Inr (data, s)
                 else Inr (JArr [], s)) (\<lambda>(messages, s1).
          bindE (py_iter messages) (\<lambda>msgs. foldE (gemini_message B) s1 msgs)))"

text \<open>
  One element of \<open>content\<close> of a \<open>user\<close>/\<open>gemini\<close> record of the JSONL format; the state is
  the session and \<open>text_parts\<close>.
\<close>

definition gemini_block :: "builtins \<Rightarrow> json \<Rightarrow> Session \<times> string list \<Rightarrow> json \<Rightarrow> error + Session \<times> string list" where
  "gemini_block B ts st block =
     (case st of (s, text_parts) \<Rightarrow>
       if is_dict block then
         bindE (dget block ''text'' (JStr [])) (\<lambda>text.
         bindE (py_strip text) (\<lambda>stripped.
         let text_parts' = (if stripped \<noteq> [] then text_parts @ [str_of text] else text_parts) in
         bindE (dget block ''functionCall'' JNull) (\<lambda>fc.
           if truthy fc \<and> is_dict fc then
             bindE (dget fc ''name'' (JStr ''unknown'')) (\<lambda>tool.
             bindE (dget fc ''args'' (JObj [])) (\<lambda>args.
               Inr (append_event s
                      ((mk_event ts (if tool = JStr ''run_shell'' \<or> tool = JStr ''shell'' then BASH else TOOL_CALL)
                          ''main'' (if truthy args then JStr (take 500 (json_dumps B args)) else tool))
                       \<lparr>tool_name := tool\<rparr>),
                    text_parts')))
           else Inr (s, text_parts'))))
       else if is_str block \<and> strip (str_of block) \<noteq> [] then Inr (s, text_parts @ [str_of block])
       else Inr (s, text_parts))"

definition gemini_record :: "builtins \<Rightarrow> Session \<Rightarrow> json \<Rightarrow> error + Session" where
  "gemini_record B s rec =
     bindE (dget rec ''type'' (JStr [])) (\<lambda>rec_type.
     bindE (dget rec ''timestamp'' (JStr [])) (\<lambda>ts.
       if rec_type = JStr ''session_metadata'' then
         bindE (dget rec ''sessionId'' (id_se s)) (\<lambda>sid.
         bindE (dget rec ''startTime'' ts) (\<lambda>start.
           Inr (s\<lparr>id_se := sid, start_time := start\<rparr>)))
       else if rec_type = JStr ''user'' \<or> rec_type = JStr ''gemini'' then
         bindE (dget rec ''content'' (JArr [])) (\<lambda>content_blocks.
         bindE (py_iter content_blocks) (\<lambda>blocks.
         bindE (foldE (gemini_block B ts) (s, []) blocks) (\<lambda>(s1, text_parts).
           Inr (if text_parts \<noteq> []
                then append_event s1
                       (mk_event ts (if rec_type = JStr ''user'' then USER else TEXT) ''main''
                          (JStr (join_nl text_parts)))
                else s1))))
       else if rec_type = JStr ''message_update'' then
         bindE (dget rec ''tokens'' (JObj [])) (\<lambda>tokens.
         bindE (dget tokens ''input'' (JInt 0)) (\<lambda>i.
         bindE (dget tokens ''output'' (JInt 0)) (\<lambda>out.
           add_tokens B ''main'' i out (JInt 0) s)))
       else Inr s))"

definition parse_gemini_jsonl :: "builtins \<Rightarrow> transcript \<Rightarrow> Session \<Rightarrow> error + Session" where
  "parse_gemini_jsonl B t s =
     bindE (read_jsonl (lines_of t)) (\<lambda>recs. foldE (gemini_record B) s recs)"

definition gemini_records :: "builtins \<Rightarrow> transcript \<Rightarrow> error + Session" where
  "gemini_records B t =
     (let s = (mk_session (JStr (stem t)))\<lparr>agents := [(''main'', mk_agent ''main'' ''Gemini'' False ''blue'')]\<rparr>
      in if suffix t = ''.json'' then parse_gemini_json B t s else parse_gemini_jsonl B t s)"

definition parse_gemini :: "builtins \<Rightarrow> transcript \<Rightarrow> error + Session" where
  "parse_gemini B t = bindE (gemini_records B t) (finish_main B)"

subsection \<open>parse\_claude\_code\<close>

definition AGENT_COLORS :: "string list" where
  "AGENT_COLORS = [''magenta'', ''yellow'', ''green'', ''red'', ''blue'', ''white'']"

definition TOOL_TYPE_MAP :: "(string \<times> EventType) list" where
  "TOOL_TYPE_MAP =
     [(''Bash'', BASH), (''Read'', FILE_READ), (''Write'', FILE_CREATE), (''Edit'', FILE_UPDATE),
      (''Glob'', TOOL_CALL), (''Grep'', TOOL_CALL), (''WebSearch'', WEB_SEARCH),
      (''WebFetch'', WEB_SEARCH), (''Task'', SPAWN)]"

text \<open>\<open>TOOL_TYPE_MAP.get(tool_name, EventType.TOOL_CALL)\<close>: the key is hashed.\<close>

definition tool_type_lookup :: "json \<Rightarrow> error + EventType" where
  "tool_type_lookup tool =
     bindE (py_hash tool) (\<lambda>k.
       Inr (case k of
              JStr n \<Rightarrow> (case map_of TOOL_TYPE_MAP n of Some ty \<Rightarrow> ty | None \<Rightarrow> TOOL_CALL)
            | _ \<Rightarrow> TOOL_CALL))"

text \<open>
  The request of an assistant record as the two sets of \<open>_process_lines\<close> see it: \<open>None\<close>
  when \<open>request_id\<close> is falsy (the sets are not consulted), otherwise the hashed value.
\<close>

definition request_key :: "json \<Rightarrow> error + json option" where
  "request_key request_id =
     (if truthy request_id then bindE (py_hash request_id) (\<lambda>k. Inr (Some k)) else Inr None)"

text \<open>
  \<open>_event_tokens()\<close>: the tokens of the record for the first call per request, zeros
  afterwards; the state is \<open>request_tokens_assigned\<close>.
\<close>

definition event_tokens :: "json option \<Rightarrow> json \<times> json \<times> json \<Rightarrow> json set \<Rightarrow> (json \<times> json \<times> json) \<times> json set" where
  "event_tokens rid toks assigned =
     (case rid of
        Some k \<Rightarrow> if k \<notin> assigned then (toks, insert k assigned) else ((JInt 0, JInt 0, JInt 0), assigned)
      | None \<Rightarrow> ((JInt 0, JInt 0, JInt 0), assigned))"

definition with_tokens :: "json \<times> json \<times> json \<Rightarrow> Event \<Rightarrow> Event" where
  "with_tokens toks e =
     (case toks of (i, out, c) \<Rightarrow> e\<lparr>input_tokens := i, output_tokens := out, cache_read_tokens := c\<rparr>)"

text \<open>\<open>file_path\<close> and \<open>description\<close> of a \<open>tool_use\<close> block.\<close>

definition tool_use_fields :: "builtins \<Rightarrow> json \<Rightarrow> json \<Rightarrow> error + json \<times> json" where
  "tool_use_fields B tool tool_input =
     (if tool = JStr ''Read'' \<or> tool = JStr ''Write'' \<or> tool = JStr ''Edit'' then
        bindE (dget tool_input ''file_path'' (JStr [])) (\<lambda>fp. Inr (fp, JStr []))
      else if tool = JStr ''Bash'' then
        bindE (dget tool_input ''description'' (JStr [])) (\<lambda>d.
        bindE (dget tool_input ''command'' (JStr [])) (\<lambda>c. Inr (JStr [], py_or d c)))
      else if tool = JStr ''Task'' then
        bindE (dget tool_input ''description'' (JStr [])) (\<lambda>d. Inr (JStr [], d))
      else if tool = JStr ''Glob'' \<or> tool = JStr ''Grep'' then
        bindE (dget tool_input ''pattern'' (JStr [])) (\<lambda>d. Inr (JStr [], d))
      else if tool = JStr ''WebSearch'' then
        bindE (dget tool_input ''query'' (JStr [])) (\<lambda>d. Inr (JStr [], d))
      else if tool = JStr ''WebFetch'' then
        bindE (dget tool_input ''url'' (JStr [])) (\<lambda>d. Inr (JStr [], d))
      else Inr (JStr [], JStr (py_str B tool_input)))"

text \<open>One content block of an assistant record; the state is the session and
  \<open>request_tokens_assigned\<close>.\<close>

definition assistant_block ::
  "builtins \<Rightarrow> string \<Rightarrow> json \<Rightarrow> json option \<Rightarrow> json \<times> json \<times> json \<Rightarrow> Session \<times> json set \<Rightarrow> json
     \<Rightarrow> error + Session \<times> json set" where
  "assistant_block B aid ts rid toks st block =
     (case st of (s, assigned) \<Rightarrow>
       if \<not> is_dict block then Inr (s, assigned)
       else
         bindE (dget block ''type'' JNull) (\<lambda>block_type.
           if block_type = JStr ''thinking'' then
             bindE (dget block ''thinking'' (JStr [])) (\<lambda>thinking_text.
             bindE (py_strip thinking_text) (\<lambda>stripped.
               if stripped \<noteq> [] then
                 (case event_tokens rid toks assigned of (et, assigned') \<Rightarrow>
                    Inr (append_event s (with_tokens et (mk_event ts THINK aid thinking_text)), assigned'))
               else Inr (s, assigned)))
           else if block_type = JStr ''text'' then
             bindE (dget block ''text'' (JStr [])) (\<lambda>text.
             bindE (py_strip text) (\<lambda>stripped.
               if stripped \<noteq> [] then Inr (append_event s (mk_event ts TEXT aid (JStr stripped)), assigned)
               else Inr (s, assigned)))
           else if block_type = JStr ''tool_use'' then
             bindE (dget block ''name'' (JStr ''unknown'')) (\<lambda>tool.
             bindE (dget block ''input'' (JObj [])) (\<lambda>tool_input.
             bindE (tool_type_lookup tool) (\<lambda>mapped.
             bindE (tool_use_fields B tool tool_input) (\<lambda>(fp, description).
               (case event_tokens rid toks assigned of (et, assigned') \<Rightarrow>
                  Inr (append_event s
                         (with_tokens et
                            ((mk_event ts (if tool = JStr ''Task'' then SPAWN else mapped) aid
                                (py_or description fp))
                             \<lparr>tool_name := tool, file_path := fp\<rparr>)),
                       assigned'))))))
           else Inr (s, assigned)))"

text \<open>One block of the content list of a user record: tool results.\<close>

definition result_parts :: "json \<Rightarrow> json list" where
  "result_parts rb =
     (if is_dict rb \<and> dget rb ''type'' JNull = Inr (JStr ''text'')
      then (case dget rb ''text'' (JStr []) of Inr v \<Rightarrow> [v] | Inl e \<Rightarrow> [])
      else [])"

definition user_block :: "builtins \<Rightarrow> string \<Rightarrow> json \<Rightarrow> Session \<Rightarrow> json \<Rightarrow> error + Session" where
  "user_block B aid ts s block =
     (if \<not> is_dict block then Inr s
      else
        bindE (dget block ''type'' JNull) (\<lambda>block_type.
          if block_type = JStr ''tool_result'' then
            bindE (dget block ''content'' (JStr [])) (\<lambda>result_text.
            bindE (case result_text of
                     JArr rbs \<Rightarrow> bindE (py_join (concat (map result_parts rbs))) (\<lambda>j. Inr (JStr j))
                   | _ \<Rightarrow> Inr result_text) (\<lambda>result_text'.
            bindE (dget block ''is_error'' (JBool False)) (\<lambda>is_error.
              Inr (append_event s
                     (mk_event ts (if truthy is_error then ERROR else TOOL_RESULT) aid
                        (JStr (py_str B result_text')))))))
          else Inr s))"

text \<open>
  The body of the loop of \<open>_process_lines\<close>; the state is the session,
  \<open>seen_request_ids\<close> and \<open>request_tokens_assigned\<close>. A user record touches the session
  only.
\<close>

definition user_record :: "builtins \<Rightarrow> string \<Rightarrow> json \<Rightarrow> Session \<Rightarrow> json \<Rightarrow> error + Session" where
  "user_record B aid ts s rec =
     bindE (dget rec ''message'' (JObj [])) (\<lambda>msg.
     bindE (dget msg ''content'' (JStr [])) (\<lambda>c.
     let s1 = (if is_str c \<and> strip (str_of c) \<noteq> [] then append_event s (mk_event ts USER aid c)
               else s) in
     (case c of
        JArr blocks \<Rightarrow> foldE (user_block B aid ts) s1 blocks
      | _ \<Rightarrow> Inr s1)))"

text \<open>The agent receives the tokens of a request once: with the first record of the request.\<close>

definition count_request ::
  "builtins \<Rightarrow> string \<Rightarrow> json option \<Rightarrow> json \<times> json \<times> json \<Rightarrow> Session \<times> json set
     \<Rightarrow> error + Session \<times> json set" where
  "count_request B aid rid toks st =
     (case st of (s, seen) \<Rightarrow>
       (case rid of
          Some k \<Rightarrow>
            if k \<notin> seen
            then (case toks of (in_tok, out_tok, cache_tok) \<Rightarrow>
                    bindE (add_tokens B aid in_tok out_tok cache_tok s) (\<lambda>s1. Inr (s1, insert k seen)))
            else Inr (s, seen)
        | None \<Rightarrow> Inr (s, seen)))"

text \<open>
  An assistant record once its fields are read: the request \<open>rid\<close>, the usage \<open>toks\<close> and
  the content blocks.
\<close>

definition assistant_body ::
  "builtins \<Rightarrow> string \<Rightarrow> json \<Rightarrow> json option \<Rightarrow> json \<times> json \<times> json \<Rightarrow> json
     \<Rightarrow> Session \<times> json set \<times> json set \<Rightarrow> error + Session \<times> json set \<times> json set" where
  "assistant_body B aid ts rid toks content_blocks st =
     (case st of (s, seen, assigned) \<Rightarrow>
       bindE (count_request B aid rid toks (s, seen)) (\<lambda>(s1, seen').
         (case content_blocks of
            JArr blocks \<Rightarrow>
              bindE (foldE (assistant_block B aid ts rid toks) (s1, assigned) blocks)
                (\<lambda>(s2, assigned'). Inr (s2, seen', assigned'))
          | _ \<Rightarrow> Inr (s1, seen', assigned))))"

definition assistant_record ::
  "builtins \<Rightarrow> string \<Rightarrow> json \<Rightarrow> Session \<times> json set \<times> json set \<Rightarrow> json
     \<Rightarrow> error + Session \<times> json set \<times> json set" where
  "assistant_record B aid ts st rec =
     bindE (dget rec ''message'' (JObj [])) (\<lambda>msg.
     bindE (dget msg ''content'' (JArr [])) (\<lambda>content_blocks.
     bindE (dget msg ''usage'' (JObj [])) (\<lambda>usage.
     bindE (dget rec ''requestId'' (JStr [])) (\<lambda>request_id.
     bindE (dget usage ''input_tokens'' (JInt 0)) (\<lambda>in_tok.
     bindE (dget usage ''output_tokens'' (JInt 0)) (\<lambda>out_tok.
     bindE (dget usage ''cache_read_input_tokens'' (JInt 0)) (\<lambda>cache_tok.
     bindE (request_key request_id) (\<lambda>rid.
       assistant_body B aid ts rid (in_tok, out_tok, cache_tok) content_blocks st))))))))"

definition process_rec ::
  "builtins \<Rightarrow> string \<Rightarrow> Session \<times> json set \<times> json set \<Rightarrow> json \<Rightarrow> error + Session \<times> json set \<times> json set" where
  "process_rec B aid st rec =
     (case st of (s, seen, assigned) \<Rightarrow>
       bindE (dget rec ''type'' JNull) (\<lambda>rec_type.
       bindE (dget rec ''timestamp'' (JStr [])) (\<lambda>ts.
         if rec_type = JStr ''user'' then
           bindE (user_record B aid ts s rec) (\<lambda>s1. Inr (s1, seen, assigned))
         else if rec_type = JStr ''assistant'' then assistant_record B aid ts st rec
         else Inr (s, seen, assigned))))"

definition process_lines :: "builtins \<Rightarrow> json list \<Rightarrow> string \<Rightarrow> Session \<Rightarrow> error + Session" where
  "process_lines B recs aid s =
     bindE (foldE (process_rec B aid) (s, {}, {}) recs) (\<lambda>(s', seen, assigned). Inr s')"

text \<open>The first record that has \<open>sessionId\<close> gives the session id for the sub-agent lookup.\<close>

fun find_session_id :: "json list \<Rightarrow> json \<Rightarrow> error + json" where
  "find_session_id [] d = Inr d"
| "find_session_id (rec # recs) d =
     bindE (py_in ''sessionId'' rec) (\<lambda>b.
       if b then py_getitem rec ''sessionId'' else find_session_id recs d)"

text \<open>
  Both candidate directories are built before either is looked at, and \<open>parent / x\<close>
  raises \<open>TypeError\<close> unless \<open>x\<close> is a string. The first directory that exists gives the
  files.
\<close>

definition discover_subagents :: "transcript \<Rightarrow> json \<Rightarrow> error + subagent_file list" where
  "discover_subagents t session_id =
     (if \<not> is_str session_id then Inl TypeError
      else Inr (case subagents_dir t (stem t) of
                  Some fs \<Rightarrow> fs
                | None \<Rightarrow> (case subagents_dir t (str_of session_id) of Some fs \<Rightarrow> fs | None \<Rightarrow> [])))"

text \<open>\<open>stem.replace("agent-", "")\<close>.\<close>

fun remove_agent_prefix :: "string \<Rightarrow> string" where
  "remove_agent_prefix [] = []"
| "remove_agent_prefix (c # cs) =
     (if take 6 (c # cs) = ''agent-'' then remove_agent_prefix (drop 5 cs)
      else c # remove_agent_prefix cs)"

text \<open>
  Registration of one sub-agent file; the state is the session, \<open>color_idx\<close> and
  \<open>subagent_events\<close>. \<open>len(agent_id)\<close> needs a string, list or dict and the assignment
  \<open>session.agents[agent_id]\<close> a hashable key, so past both the id is a string.
\<close>

definition register_subagent ::
  "Session \<times> nat \<times> (string \<times> json list) list \<Rightarrow> subagent_file
     \<Rightarrow> error + Session \<times> nat \<times> (string \<times> json list) list" where
  "register_subagent st f =
     (case st of (s, color_idx, subagent_events) \<Rightarrow>
       bindE (read_jsonl (sa_lines f)) (\<lambda>sa_recs.
         case sa_recs of
           [] \<Rightarrow> Inr (s, color_idx, subagent_events)
         | first # rest \<Rightarrow>
             bindE (dget first ''agentId'' (JStr (remove_agent_prefix (sa_stem f)))) (\<lambda>agent_id.
             bindE (py_len agent_id) (\<lambda>n.
             bindE (if n > 7 then py_slice 7 agent_id else Inr agent_id) (\<lambda>short_id.
             bindE (py_hash agent_id) (\<lambda>k.
               Inr (s\<lparr>agents := AList.update (str_of agent_id)
                          (mk_agent (str_of agent_id) (str_of short_id) True
                             (AGENT_COLORS ! (color_idx mod length AGENT_COLORS)))
                          (agents s)\<rparr>,
                    color_idx + 1,
                    subagent_events @ [(str_of agent_id, sa_recs)])))))))"

definition process_subagent :: "builtins \<Rightarrow> Session \<Rightarrow> string \<times> json list \<Rightarrow> error + Session" where
  "process_subagent B s sub = process_lines B (snd sub) (fst sub) s"

text \<open>Session metadata from the first user or assistant record that has \<open>sessionId\<close>.\<close>

fun set_metadata :: "json list \<Rightarrow> Session \<Rightarrow> error + Session" where
  "set_metadata [] s = Inr s"
| "set_metadata (rec # recs) s =
     bindE (dget rec ''type'' JNull) (\<lambda>ty.
       if (ty = JStr ''user'' \<or> ty = JStr ''assistant'') \<and> has_key rec ''sessionId'' then
         bindE (dget rec ''sessionId'' (id_se s)) (\<lambda>sid.
         bindE (dget rec ''slug'' (JStr [])) (\<lambda>sl.
         bindE (dget rec ''version'' (JStr [])) (\<lambda>ver.
         bindE (dget rec ''gitBranch'' (JStr [])) (\<lambda>br.
         bindE (dget rec ''timestamp'' (JStr [])) (\<lambda>ts.
           Inr (s\<lparr>id_se := sid, slug := sl, version := ver, branch := br, start_time := ts\<rparr>))))))
       else set_metadata recs s)"

text \<open>Spawn time of an agent: the timestamp of its first event in sorted order.\<close>

definition set_spawn_time :: "Session \<Rightarrow> Event \<Rightarrow> Session" where
  "set_spawn_time s e =
     (case map_of (agents s) (agent_id e) of
        Some a \<Rightarrow>
          if \<not> truthy (spawn_time a)
          then s\<lparr>agents := AList.update (agent_id e) (a\<lparr>spawn_time := timestamp e\<rparr>) (agents s)\<rparr>
          else s
      | None \<Rightarrow> s)"

text \<open>Everything \<open>parse_claude_code\<close> does before the sort.\<close>

definition claude_records :: "builtins \<Rightarrow> transcript \<Rightarrow> error + Session \<times> json list" where
  "claude_records B t =
     bindE (read_jsonl (lines_of t)) (\<lambda>recs.
     bindE (find_session_id recs (JStr (stem t))) (\<lambda>session_id.
     bindE (discover_subagents t session_id) (\<lambda>subagent_files.
     bindE (foldE register_subagent
              ((mk_session (JStr ''unknown''))\<lparr>agents := [(''main'', mk_agent ''main'' ''Main'' False ''cyan'')]\<rparr>,
               0, [])
              subagent_files) (\<lambda>(s, color_idx, subagent_events).
     bindE (process_lines B recs ''main'' s) (\<lambda>s1.
     bindE (foldE (process_subagent B) s1 subagent_events) (\<lambda>s2. Inr (s2, recs)))))))"

definition parse_claude_code :: "builtins \<Rightarrow> transcript \<Rightarrow> error + Session" where
  "parse_claude_code B t =
     bindE (claude_records B t) (\<lambda>(s, recs).
     bindE (sort_events B (events s)) (\<lambda>evs.
     bindE (set_metadata recs (s\<lparr>events := evs\<rparr>)) (\<lambda>s1.
       Inr (fold (\<lambda>e s'. set_spawn_time s' e) evs s1))))"

subsection \<open>parse and its cache\<close>

text \<open>
  \<open>_parse_cache\<close> is a dict from \<open>(resolved_path, mtime)\<close> to sessions; a dict keeps its
  keys in insertion order, so the cache is an association list, oldest entry first.
  The modification time is only compared for equality.
\<close>

type_synonym cache = "((string \<times> int) \<times> Session) list"

definition PARSE_CACHE_MAX :: nat where
  "PARSE_CACHE_MAX = 64"

definition normalize :: "builtins \<Rightarrow> transcript \<Rightarrow> error + Session" where
  "normalize B t =
     bindE (auto_detect t) (\<lambda>fmt.
       if fmt = ''claude_code'' then parse_claude_code B t
       else if fmt = ''gemini'' then parse_gemini B t
       else parse_codex B t)"

definition cache_key :: "transcript \<Rightarrow> string \<times> int" where
  "cache_key t = (resolved t, (case st_mtime t of None \<Rightarrow> 0 | Some m \<Rightarrow> m))"

text \<open>The keys that \<open>parse\<close> deletes as stale: same path, another modification time.\<close>

definition stale :: "string \<times> int \<Rightarrow> string \<times> int \<Rightarrow> bool" where
  "stale key k = (fst k = fst key \<and> snd k \<noteq> snd key)"

text \<open>The stale entries go; if the cache is still full, so does its oldest entry.\<close>

definition evict :: "string \<times> int \<Rightarrow> cache \<Rightarrow> cache" where
  "evict key c =
     (let c1 = filter (\<lambda>entry. \<not> stale key (fst entry)) c
      in if length c1 \<ge> PARSE_CACHE_MAX then tl c1 else c1)"

definition parse :: "builtins \<Rightarrow> transcript \<Rightarrow> cache \<Rightarrow> (error + Session) \<times> cache" where
  "parse B t c =
     (case map_of c (cache_key t) of
        Some cached \<Rightarrow> (Inr cached, c)
      | None \<Rightarrow>
          (case normalize B t of
             Inl e \<Rightarrow> (Inl e, c)
           | Inr session \<Rightarrow> (Inr session, AList.update (cache_key t) session (evict (cache_key t) c))))"

subsection \<open>Caches that calls of parse can produce\<close>

text \<open>The cache is empty when the module is loaded and only \<open>parse\<close> changes it.\<close>

inductive reachable :: "builtins \<Rightarrow> cache \<Rightarrow> bool" for B :: builtins where
  reachable_empty: "reachable B []"
| reachable_parse: "reachable B c \<Longrightarrow> parse B t c = (r, c') \<Longrightarrow> reachable B c'"

subsection \<open>Example files\<close>

text \<open>A file whose only line is \<open>42\<close>.\<close>

definition ex_non_object :: transcript where
  "ex_non_object =
     \<lparr>resolved = ''/logs/t.jsonl'', st_mtime = Some 1, suffix = ''.jsonl'', stem = ''t'',
      lines_of = Some [Record (JInt 42)], doc = Document (JInt 42),
      subagents_dir = (\<lambda>d. None)\<rparr>"

text \<open>
  A Codex rollout of two lines:
  \<^verbatim>\<open>{"type": "session_meta", "timestamp": "2024-01-01T00:00:00Z"}\<close> and \<^verbatim>\<open>42\<close>.
\<close>

definition ex_codex_bad :: transcript where
  "ex_codex_bad =
     \<lparr>resolved = ''/logs/rollout-1.jsonl'', st_mtime = Some 1, suffix = ''.jsonl'',
      stem = ''rollout-1'',
      lines_of = Some [Record (JObj [(''type'', JStr ''session_meta''),
                                     (''timestamp'', JStr ''2024-01-01T00:00:00Z'')]),
                       Record (JInt 42)],
      doc = Malformed, subagents_dir = (\<lambda>d. None)\<rparr>"

text \<open>
  Library functions for the examples: none of the examples prints a value, adds a float
  or sorts keys other than strings.
\<close>

definition ex_builtins :: builtins where
  "ex_builtins =
     \<lparr>json_dumps = (\<lambda>v. ''{}''), py_repr = (\<lambda>v. ''{}''), float_add = (\<lambda>a b. a),
      int_to_float = (\<lambda>n. Inr (Finite (of_int n))), list_sort = (\<lambda>evs. Inl TypeError)\<rparr>"

text \<open>
  The Codex rollout of the end-to-end scenario: session metadata, a call of the shell
  tool and its result, followed by a token count.
\<close>

definition ex_codex_lines :: "line list" where
  "ex_codex_lines =
     [Record (JObj [(''type'', JStr ''session_meta''), (''timestamp'', JStr ''2024-01-01T00:00:00Z'')]),
      Record (JObj [(''type'', JStr ''response_item''), (''timestamp'', JStr ''2024-01-01T00:00:02Z''),
                    (''item'', JObj [(''type'', JStr ''function_call''), (''name'', JStr ''shell''),
                                     (''arguments'', JStr ''ls'')])]),
      Record (JObj [(''type'', JStr ''response_item''), (''timestamp'', JStr ''2024-01-01T00:00:03Z''),
                    (''item'', JObj [(''type'', JStr ''function_call_output''),
                                     (''output'', JStr ''a.txt'')])]),
      Record (JObj [(''type'', JStr ''event_msg''), (''timestamp'', JStr ''2024-01-01T00:00:04Z''),
                    (''payload'', JObj [(''type'', JStr ''token_count''),
                       (''info'', JObj [(''last_token_usage'',
                          JObj [(''input_tokens'', JInt 10), (''output_tokens'', JInt 4)])])])])]"

definition ex_codex :: "int \<Rightarrow> transcript" where
  "ex_codex mtime =
     \<lparr>resolved = ''/logs/rollout-2.jsonl'', st_mtime = Some mtime, suffix = ''.jsonl'',
      stem = ''rollout-2'', lines_of = Some ex_codex_lines, doc = Malformed,
      subagents_dir = (\<lambda>d. None)\<rparr>"

definition ex_codex_session :: Session where
  "ex_codex_session =
     \<lparr>id_se = JStr ''rollout-2'', slug = JStr [], version = JStr [], branch = JStr [],
      start_time = JStr ''2024-01-01T00:00:00Z'',
      agents = [(''main'', (mk_agent ''main'' ''Codex'' False ''green'')
                            \<lparr>spawn_time := JStr ''2024-01-01T00:00:02Z'',
                             input_tokens_ag := JInt 10, output_tokens_ag := JInt 4\<rparr>)],
      events = [(mk_event (JStr ''2024-01-01T00:00:02Z'') BASH ''main'' (JStr ''ls''))
                  \<lparr>tool_name := JStr ''shell''\<rparr>,
                mk_event (JStr ''2024-01-01T00:00:03Z'') TOOL_RESULT ''main'' (JStr ''a.txt'')]\<rparr>"

text \<open>The invariant of the cache: one entry per path at most, and no more than the bound.\<close>

definition cache_inv :: "cache \<Rightarrow> bool" where
  "cache_inv c = (distinct (map (\<lambda>e. fst (fst e)) c) \<and> length c \<le> PARSE_CACHE_MAX)"

subsection \<open>Notions used in the statements\<close>

text \<open>
  The events of a file in the order in which the normalizer of its dialect appended them,
  before the sort: main file first, then each sub-agent file.
\<close>

definition collect :: "builtins \<Rightarrow> transcript \<Rightarrow> error + Event list" where
  "collect B t =
     bindE (auto_detect t) (\<lambda>fmt.
       if fmt = ''claude_code'' then bindE (claude_records B t) (\<lambda>(s, recs). Inr (events s))
       else if fmt = ''gemini'' then bindE (gemini_records B t) (\<lambda>s. Inr (events s))
       else bindE (codex_records B t) (\<lambda>s. Inr (events s)))"

text \<open>Length of a content: characters of a string, elements of a list.\<close>

fun clen :: "json \<Rightarrow> nat" where
  "clen (JStr s) = length s"
| "clen (JArr xs) = length xs"
| "clen _ = 0"

definition tool_call_types :: "EventType set" where
  "tool_call_types = {TOOL_CALL, BASH, FILE_CREATE, FILE_UPDATE, FILE_READ}"

text \<open>The keys of \<open>session.agents\<close>, each with the id of the agent stored under it.\<close>

definition agent_ids :: "Session \<Rightarrow> (string \<times> string) list" where
  "agent_ids s = map (\<lambda>ka. (fst ka, id_ag (snd ka))) (agents s)"

text \<open>
  What holds of every event that the Codex and Gemini normalizers create: it belongs to
  the main agent, carries no token counts, a tool result is cut at 2000 and the content
  of a tool call is the arguments cut at 500 or, without arguments, the tool name.
\<close>

definition main_event_ok :: "Event \<Rightarrow> bool" where
  "main_event_ok e =
     (agent_id e = ''main'' \<and>
      input_tokens e = JInt 0 \<and> output_tokens e = JInt 0 \<and> cache_read_tokens e = JInt 0 \<and>
      (type_ev e = TOOL_RESULT \<longrightarrow> clen (content e) \<le> 2000) \<and>
      (type_ev e \<in> tool_call_types \<longrightarrow> clen (content e) \<le> 500 \<or> content e = tool_name e))"

text \<open>
  A step of a normalizer from session \<open>s\<close> to \<open>s'\<close> that only appends events, all of which
  satisfy \<open>Q\<close>, and keeps the keys and ids of the agents.
\<close>

definition appends :: "(Event \<Rightarrow> bool) \<Rightarrow> Session \<Rightarrow> Session \<Rightarrow> bool" where
  "appends Q s s' =
     ((\<exists>new. events s' = events s @ new \<and> list_all Q new) \<and> agent_ids s' = agent_ids s)"

text \<open>
  A Claude Code transcript of one line: a user record that carries a tool result of 2001
  characters.
\<close>

definition ex_claude_long :: transcript where
  "ex_claude_long =
     \<lparr>resolved = ''/logs/c1.jsonl'', st_mtime = Some 1, suffix = ''.jsonl'', stem = ''c1'',
      lines_of = Some [Record (JObj [(''type'', JStr ''user''), (''sessionId'', JStr ''c1''),
                         (''timestamp'', JStr ''2024-01-01T00:00:00Z''),
                         (''message'', JObj [(''content'',
                            JArr [JObj [(''type'', JStr ''tool_result''),
                                        (''content'', JStr (replicate 2001 CHR ''x''))]])])])],
      doc = Malformed, subagents_dir = (\<lambda>d. None)\<rparr>"

definition ex_claude_long_session :: Session where
  "ex_claude_long_session =
     \<lparr>id_se = JStr ''c1'', slug = JStr [], version = JStr [], branch = JStr [],
      start_time = JStr ''2024-01-01T00:00:00Z'',
      agents = [(''main'', (mk_agent ''main'' ''Main'' False ''cyan'')
                            \<lparr>spawn_time := JStr ''2024-01-01T00:00:00Z''\<rparr>)],
      events = [mk_event (JStr ''2024-01-01T00:00:00Z'') TOOL_RESULT ''main''
                  (JStr (replicate 2001 CHR ''x''))]\<rparr>"

text \<open>
  A Codex rollout of one line: a call without arguments of a tool whose name has 501
  characters.
\<close>

definition ex_codex_long_name :: transcript where
  "ex_codex_long_name =
     \<lparr>resolved = ''/logs/rollout-3.jsonl'', st_mtime = Some 1, suffix = ''.jsonl'',
      stem = ''rollout-3'',
      lines_of = Some [Record (JObj [(''type'', JStr ''response_item''),
                         (''timestamp'', JStr ''2024-01-01T00:00:00Z''),
                         (''item'', JObj [(''type'', JStr ''function_call''),
                                          (''name'', JStr (replicate 501 CHR ''x''))])])],
      doc = Malformed, subagents_dir = (\<lambda>d. None)\<rparr>"

text \<open>The sessions of the Codex and Gemini normalizers: such events, and the main agent only.\<close>

definition main_session_ok :: "Session \<Rightarrow> bool" where
  "main_session_ok s = (list_all main_event_ok (events s) \<and> agent_ids s = [(''main'', ''main'')])"

text \<open>
  Referential integrity of a session: every agent is stored under its own id, there is
  an agent \<open>main\<close>, and the agent id of every event is a key of the agents map.
\<close>

definition session_ok :: "Session \<Rightarrow> bool" where
  "session_ok s =
     ((\<forall>p \<in> set (agent_ids s). snd p = fst p) \<and> ''main'' \<in> fst ` set (agent_ids s) \<and>
      (\<forall>e \<in> set (events s). agent_id e \<in> fst ` set (agent_ids s)))"

text \<open>
  The state of the registration loop of \<open>parse_claude_code\<close>: no events yet, every agent
  under its own id, \<open>main\<close> among them, and every entry of \<open>subagent_events\<close> registered.
\<close>

definition reg_ok :: "Session \<times> nat \<times> (string \<times> json list) list \<Rightarrow> bool" where
  "reg_ok st = (case st of (s, idx, subs) \<Rightarrow>
     events s = [] \<and> (\<forall>p \<in> set (agent_ids s). snd p = fst p) \<and> ''main'' \<in> fst ` set (agent_ids s)
     \<and> (\<forall>sub \<in> set subs. fst sub \<in> fst ` set (agent_ids s)))"

text \<open>
  A Claude Code session with one sub-agent. The main file has a user message at second 1
  and an assistant text at second 3 (request \<open>r1\<close>, 10 input and 5 output tokens); the file
  \<open>c2/subagents/agent-abc12345.jsonl\<close> has a user message at second 2.
\<close>

definition ex_claude_main_lines :: "line list" where
  "ex_claude_main_lines =
     [Record (JObj [(''type'', JStr ''user''), (''sessionId'', JStr ''s1''),
                    (''timestamp'', JStr ''2024-01-01T00:00:01Z''),
                    (''message'', JObj [(''content'', JStr ''hello'')])]),
      Record (JObj [(''type'', JStr ''assistant''), (''sessionId'', JStr ''s1''),
                    (''timestamp'', JStr ''2024-01-01T00:00:03Z''), (''requestId'', JStr ''r1''),
                    (''message'', JObj [(''usage'', JObj [(''input_tokens'', JInt 10),
                                                         (''output_tokens'', JInt 5)]),
                                        (''content'', JArr [JObj [(''type'', JStr ''text''),
                                                                  (''text'', JStr ''done'')]])])])]"

definition ex_claude_sub_lines :: "line list" where
  "ex_claude_sub_lines =
     [Record (JObj [(''type'', JStr ''user''), (''agentId'', JStr ''abc12345''),
                    (''timestamp'', JStr ''2024-01-01T00:00:02Z''),
                    (''message'', JObj [(''content'', JStr ''sub task'')])])]"

definition ex_claude_sub :: transcript where
  "ex_claude_sub =
     \<lparr>resolved = ''/logs/c2.jsonl'', st_mtime = Some 1, suffix = ''.jsonl'', stem = ''c2'',
      lines_of = Some ex_claude_main_lines, doc = Malformed,
      subagents_dir = (\<lambda>d. if d = ''c2''
                            then Some [\<lparr>sa_stem = ''agent-abc12345'', sa_lines = Some ex_claude_sub_lines\<rparr>]
                            else None)\<rparr>"

definition ex_claude_sub_session :: Session where
  "ex_claude_sub_session =
     \<lparr>id_se = JStr ''s1'', slug = JStr [], version = JStr [], branch = JStr [],
      start_time = JStr ''2024-01-01T00:00:01Z'',
      agents = [(''main'', (mk_agent ''main'' ''Main'' False ''cyan'')
                            \<lparr>spawn_time := JStr ''2024-01-01T00:00:01Z'',
                             input_tokens_ag := JInt 10, output_tokens_ag := JInt 5\<rparr>),
                (''abc12345'', (mk_agent ''abc12345'' ''abc1234'' True ''magenta'')
                            \<lparr>spawn_time := JStr ''2024-01-01T00:00:02Z''\<rparr>)],
      events = [mk_event (JStr ''2024-01-01T00:00:01Z'') USER ''main'' (JStr ''hello''),
                mk_event (JStr ''2024-01-01T00:00:02Z'') USER ''abc12345'' (JStr ''sub task''),
                mk_event (JStr ''2024-01-01T00:00:03Z'') TEXT ''main'' (JStr ''done'')]\<rparr>"

text \<open>
  The scenario of the sub-agent merge: a main file with two user messages, at timestamps
  \<open>ta\<close> and \<open>tb\<close>, and one sub-agent file with one user message at \<open>t2\<close> whose first
  record names the agent \<open>aid\<close>.
\<close>

definition user_message :: "(string \<times> json) list \<Rightarrow> string \<Rightarrow> string \<Rightarrow> json" where
  "user_message ids ts txt =
     JObj ([(''type'', JStr ''user'')] @ ids @
           [(''timestamp'', JStr ts), (''message'', JObj [(''content'', JStr txt)])])"

definition merge_scenario ::
  "string \<Rightarrow> string \<Rightarrow> string \<Rightarrow> string \<Rightarrow> string \<Rightarrow> string \<Rightarrow> string \<Rightarrow> string \<Rightarrow> transcript" where
  "merge_scenario sid ta ca tb cb aid t2 c2 =
     \<lparr>resolved = ''/logs/m.jsonl'', st_mtime = Some 1, suffix = ''.jsonl'', stem = ''m'',
      lines_of = Some [Record (user_message [(''sessionId'', JStr sid)] ta ca),
                       Record (user_message [(''sessionId'', JStr sid)] tb cb)],
      doc = Malformed,
      subagents_dir = (\<lambda>d. if d = ''m''
                            then Some [\<lparr>sa_stem = ''agent-1'',
                                        sa_lines = Some [Record (user_message [(''agentId'', JStr aid)] t2 c2)]\<rparr>]
                            else None)\<rparr>"

subsection \<open>The recorded start time of a session\<close>

text \<open>
  What each dialect records as the start of the session itself. Codex: the timestamp of
  a \<open>session_meta\<close> record. Gemini JSONL: \<open>startTime\<close> (else the timestamp) of a
  \<open>session_metadata\<close> record. Gemini JSON: \<open>startTime\<close> (else \<open>createTime\<close>) of the document
  object. Claude Code: the timestamp of a user or assistant record that has a
  \<open>sessionId\<close>. A missing field reads as the empty string.
\<close>

definition field :: "json \<Rightarrow> string \<Rightarrow> json \<Rightarrow> json" where
  "field rec k d = (case dget rec k d of Inr v \<Rightarrow> v | Inl e \<Rightarrow> d)"

definition codex_start :: "json \<Rightarrow> json option" where
  "codex_start rec =
     (if field rec ''type'' (JStr []) = JStr ''session_meta''
      then Some (field rec ''timestamp'' (JStr [])) else None)"

definition gemini_start :: "json \<Rightarrow> json option" where
  "gemini_start rec =
     (if field rec ''type'' (JStr []) = JStr ''session_metadata''
      then Some (field rec ''startTime'' (field rec ''timestamp'' (JStr []))) else None)"

definition claude_start :: "json \<Rightarrow> json option" where
  "claude_start rec =
     (if (field rec ''type'' JNull = JStr ''user'' \<or> field rec ''type'' JNull = JStr ''assistant'')
         \<and> has_key rec ''sessionId''
      then Some (field rec ''timestamp'' (JStr [])) else None)"

text \<open>The last, respectively the first, record of a file that records a start.\<close>

fun latest :: "(json \<Rightarrow> json option) \<Rightarrow> json option \<Rightarrow> json list \<Rightarrow> json option" where
  "latest f acc [] = acc"
| "latest f acc (rec # recs) = latest f (case f rec of Some v \<Rightarrow> Some v | None \<Rightarrow> acc) recs"

fun earliest :: "(json \<Rightarrow> json option) \<Rightarrow> json list \<Rightarrow> json option" where
  "earliest f [] = None"
| "earliest f (rec # recs) = (case f rec of Some v \<Rightarrow> Some v | None \<Rightarrow> earliest f recs)"

definition recorded_start :: "string \<Rightarrow> transcript \<Rightarrow> json option" where
  "recorded_start fmt t =
     (let recs = (case lines_of t of Some ls \<Rightarrow> records_of ls | None \<Rightarrow> []) in
      if fmt = ''claude_code'' then earliest claude_start recs
      else if fmt = ''gemini'' then
        (if suffix t = ''.json'' then
           (case doc t of
              Document data \<Rightarrow>
                if is_dict data
                then Some (field data ''startTime'' (field data ''createTime'' (JStr [])))
                else None
            | _ \<Rightarrow> None)
         else latest gemini_start None recs)
      else latest codex_start None recs)"

text \<open>A Codex rollout of one line: a user message whose record has no timestamp.\<close>

definition ex_codex_no_timestamp :: transcript where
  "ex_codex_no_timestamp =
     \<lparr>resolved = ''/logs/rollout-4.jsonl'', st_mtime = Some 1, suffix = ''.jsonl'',
      stem = ''rollout-4'',
      lines_of = Some [Record (JObj [(''type'', JStr ''response_item''),
                         (''item'', JObj [(''type'', JStr ''message''), (''role'', JStr ''user''),
                                          (''content'', JStr ''hi'')])])],
      doc = Malformed, subagents_dir = (\<lambda>d. None)\<rparr>"

definition ex_codex_no_timestamp_session :: Session where
  "ex_codex_no_timestamp_session =
     \<lparr>id_se = JStr ''rollout-4'', slug = JStr [], version = JStr [], branch = JStr [],
      start_time = JStr [],
      agents = [(''main'', mk_agent ''main'' ''Codex'' False ''green'')],
      events = [mk_event (JStr []) USER ''main'' (JStr ''hi'')]\<rparr>"

text \<open>
  A Claude Code transcript of two lines: a file-history snapshot, and a user message that
  has a timestamp but no \<open>sessionId\<close>.
\<close>

definition ex_claude_no_session_id :: transcript where
  "ex_claude_no_session_id =
     \<lparr>resolved = ''/logs/c3.jsonl'', st_mtime = Some 1, suffix = ''.jsonl'', stem = ''c3'',
      lines_of = Some [Record (JObj [(''type'', JStr ''file-history-snapshot'')]),
                       Record (JObj [(''type'', JStr ''user''),
                                     (''timestamp'', JStr ''2024-01-01T00:00:01Z''),
                                     (''message'', JObj [(''content'', JStr ''hello'')])])],
      doc = Malformed, subagents_dir = (\<lambda>d. None)\<rparr>"

text \<open>A step of a normalizer that leaves the start time of the session alone.\<close>

definition keeps_start :: "Session \<Rightarrow> Session \<Rightarrow> bool" where
  "keeps_start s s' = (start_time s' = start_time s)"

subsection \<open>What is assumed of the library's sort\<close>

text \<open>
  \<open>list.sort\<close> rearranges the list in place: whatever the keys are, the list it leaves
  holds the events it was given.
\<close>

definition sort_rearranges :: "builtins \<Rightarrow> bool" where
  "sort_rearranges B = (\<forall>evs r. list_sort B evs = Inr r \<longrightarrow> set r = set evs)"

subsection \<open>Further example files\<close>

text \<open>
  The rollout of the example after its modification time went from 5 to 6 and it became
  unreadable: \<open>stat\<close> succeeds, \<open>open\<close> raises \<open>OSError\<close>.
\<close>

definition ex_codex_unreadable :: transcript where
  "ex_codex_unreadable = (ex_codex 6)\<lparr>lines_of := None, doc := Unreadable\<rparr>"

text \<open>
  A Codex rollout of three user messages whose timestamps are the numbers 2, NaN and 1:
  \<^verbatim>\<open>{"type": "response_item", "timestamp": 2, "item": {"type": "message", "role": "user", "content": "a"}}\<close>
  and likewise \<^verbatim>\<open>"timestamp": NaN\<close> with content b and \<^verbatim>\<open>"timestamp": 1\<close> with content c.
\<close>

definition ex_codex_nan :: transcript where
  "ex_codex_nan =
     \<lparr>resolved = ''/logs/rollout-5.jsonl'', st_mtime = Some 1, suffix = ''.jsonl'',
      stem = ''rollout-5'',
      lines_of = Some
        [Record (JObj [(''type'', JStr ''response_item''), (''timestamp'', JInt 2),
                       (''item'', JObj [(''type'', JStr ''message''), (''role'', JStr ''user''),
                                        (''content'', JStr ''a'')])]),
         Record (JObj [(''type'', JStr ''response_item''), (''timestamp'', JFloat NaN),
                       (''item'', JObj [(''type'', JStr ''message''), (''role'', JStr ''user''),
                                        (''content'', JStr ''b'')])]),
         Record (JObj [(''type'', JStr ''response_item''), (''timestamp'', JInt 1),
                       (''item'', JObj [(''type'', JStr ''message''), (''role'', JStr ''user''),
                                        (''content'', JStr ''c'')])])],
      doc = Malformed, subagents_dir = (\<lambda>d. None)\<rparr>"

definition ex_codex_nan_session :: Session where
  "ex_codex_nan_session =
     \<lparr>id_se = JStr ''rollout-5'', slug = JStr [], version = JStr [], branch = JStr [],
      start_time = JInt 2,
      agents = [(''main'', (mk_agent ''main'' ''Codex'' False ''green'')\<lparr>spawn_time := JInt 2\<rparr>)],
      events = [mk_event (JInt 2) USER ''main'' (JStr ''a''),
                mk_event (JFloat NaN) USER ''main'' (JStr ''b''),
                mk_event (JInt 1) USER ''main'' (JStr ''c'')]\<rparr>"

text \<open>
  A Claude Code transcript of one line: an assistant record of request \<open>r1\<close> that reports
  10 input and 5 output tokens and whose content is one text block.
\<close>

definition ex_claude_text :: transcript where
  "ex_claude_text =
     \<lparr>resolved = ''/logs/c4.jsonl'', st_mtime = Some 1, suffix = ''.jsonl'', stem = ''c4'',
      lines_of = Some
        [Record (JObj [(''type'', JStr ''assistant''), (''sessionId'', JStr ''s1''),
                       (''timestamp'', JStr ''2024-01-01T00:00:03Z''), (''requestId'', JStr ''r1''),
                       (''message'', JObj [(''usage'', JObj [(''input_tokens'', JInt 10),
                                                            (''output_tokens'', JInt 5)]),
                                           (''content'', JArr [JObj [(''type'', JStr ''text''),
                                                                     (''text'', JStr ''done'')]])])])],
      doc = Malformed, subagents_dir = (\<lambda>d. None)\<rparr>"

definition ex_claude_text_session :: Session where
  "ex_claude_text_session =
     \<lparr>id_se = JStr ''s1'', slug = JStr [], version = JStr [], branch = JStr [],
      start_time = JStr ''2024-01-01T00:00:03Z'',
      agents = [(''main'', (mk_agent ''main'' ''Main'' False ''cyan'')
                            \<lparr>spawn_time := JStr ''2024-01-01T00:00:03Z'',
                             input_tokens_ag := JInt 10, output_tokens_ag := JInt 5\<rparr>)],
      events = [mk_event (JStr ''2024-01-01T00:00:03Z'') TEXT ''main'' (JStr ''done'')]\<rparr>"

section \<open>Properties\<close>

subsection \<open>The error monad\<close>

lemma bindE_Inr [simp]: "bindE (Inr x) f = f x"
  by (simp add: bindE_def)

lemma bindE_Inl [simp]: "bindE (Inl e) f = Inl e"
  by (simp add: bindE_def)

lemma bindE_eq_Inr: "bindE m f = Inr y \<longleftrightarrow> (\<exists>x. m = Inr x \<and> f x = Inr y)"
  by (cases m) simp_all

subsection \<open>Records that are not objects\<close>

text \<open>
  C6. \<open>auto_detect\<close> is claimed never to raise on a readable line-delimited file, lines of
  arbitrary JSON values included. On the file whose only line is \<open>42\<close> the call
  \<open>rec.get("type")\<close> of the line scan raises \<open>AttributeError\<close>.
\<close>

theorem auto_detect_non_object_raises: "auto_detect ex_non_object = Inl AttributeError"
  by (simp add: auto_detect_def ex_non_object_def detect_record_def)

text \<open>
  C3. \<open>parse\<close> is claimed to raise only for I/O errors and to skip a line that parses as
  JSON but is not an object. On a readable Codex rollout whose second line is \<open>42\<close> the
  whole parse fails with \<open>AttributeError\<close> (\<open>rec.get("type", "")\<close> in \<open>parse_codex\<close>), and
  nothing is cached.
\<close>

theorem parse_non_object_record_raises: "parse B ex_codex_bad [] = (Inl AttributeError, [])"
  by (simp add: parse_def normalize_def auto_detect_def ex_codex_bad_def detect_record_def
      parse_codex_def codex_records_def read_jsonl_def codex_record_def)

subsection \<open>The parse cache\<close>

lemma update_absent: "k \<notin> fst ` set xs \<Longrightarrow> AList.update k v xs = xs @ [(k, v)]"
  by (induction xs) auto

lemma set_tl_subset: "set (tl xs) \<subseteq> set xs"
  by (cases xs) auto

lemma set_evict: "set (evict key c) \<subseteq> {e \<in> set c. \<not> stale key (fst e)}"
proof -
  let ?c1 = "filter (\<lambda>entry. \<not> stale key (fst entry)) c"
  have "set (evict key c) \<subseteq> set ?c1"
    using set_tl_subset[of ?c1] by (simp add: evict_def Let_def)
  then show ?thesis by auto
qed

lemma distinct_tl_map: "distinct (map f xs) \<Longrightarrow> distinct (map f (tl xs))"
  by (cases xs) auto

lemma distinct_evict:
  "distinct (map (\<lambda>e. fst (fst e)) c) \<Longrightarrow> distinct (map (\<lambda>e. fst (fst e)) (evict key c))"
  by (simp add: evict_def Let_def distinct_map_filter distinct_tl_map)

lemma length_evict:
  assumes "length c \<le> PARSE_CACHE_MAX"
  shows "Suc (length (evict key c)) \<le> PARSE_CACHE_MAX"
proof -
  let ?c1 = "filter (\<lambda>entry. \<not> stale key (fst entry)) c"
  have "length ?c1 \<le> length c" by (rule length_filter_le)
  with assms have le: "length ?c1 \<le> PARSE_CACHE_MAX" by linarith
  show ?thesis
  proof (cases "length ?c1 \<ge> PARSE_CACHE_MAX")
    case True
    then have "evict key c = tl ?c1" by (simp add: evict_def)
    moreover have "0 < PARSE_CACHE_MAX" by (simp add: PARSE_CACHE_MAX_def)
    ultimately show ?thesis using le by simp
  next
    case False
    then have "evict key c = ?c1" by (simp add: evict_def)
    with False show ?thesis by simp
  qed
qed

lemma evict_no_path:
  assumes "map_of c key = None" "e \<in> set (evict key c)"
  shows "fst (fst e) \<noteq> fst key"
proof
  assume p: "fst (fst e) = fst key"
  from assms(2) set_evict have e: "e \<in> set c" "\<not> stale key (fst e)" by blast+
  with p have "fst e = key" by (auto simp: stale_def prod_eq_iff)
  with e(1) have "key \<in> fst ` set c" by force
  with assms(1) show False by (simp add: map_of_eq_None_iff)
qed

lemma parse_hit: "map_of c (cache_key t) = Some s \<Longrightarrow> parse B t c = (Inr s, c)"
  by (simp add: parse_def)

lemma parse_fail:
  "map_of c (cache_key t) = None \<Longrightarrow> normalize B t = Inl e \<Longrightarrow> parse B t c = (Inl e, c)"
  by (simp add: parse_def)

lemma parse_miss:
  assumes "map_of c (cache_key t) = None" "normalize B t = Inr s"
  shows "parse B t c = (Inr s, evict (cache_key t) c @ [(cache_key t, s)])"
proof -
  have "cache_key t \<notin> fst ` set (evict (cache_key t) c)"
    using evict_no_path[OF assms(1)] by force
  then show ?thesis using assms by (simp add: parse_def update_absent)
qed

lemma parse_cases:
  assumes "parse B t c = (r, c')"
  obtains (hit) s where "map_of c (cache_key t) = Some s" "r = Inr s" "c' = c"
  | (fail) e where "map_of c (cache_key t) = None" "normalize B t = Inl e" "r = Inl e" "c' = c"
  | (miss) s where "map_of c (cache_key t) = None" "normalize B t = Inr s" "r = Inr s"
      "c' = evict (cache_key t) c @ [(cache_key t, s)]"
proof (cases "map_of c (cache_key t)")
  case (Some s)
  from parse_hit[OF Some, of B] assms have "r = Inr s" "c' = c" by simp_all
  with Some show ?thesis by (rule hit)
next
  case None
  show ?thesis
  proof (cases "normalize B t")
    case (Inl e)
    from parse_fail[OF None Inl] assms have "r = Inl e" "c' = c" by simp_all
    with None Inl show ?thesis by (rule fail)
  next
    case (Inr s)
    from parse_miss[OF None Inr] assms
    have "r = Inr s" "c' = evict (cache_key t) c @ [(cache_key t, s)]" by simp_all
    with None Inr show ?thesis by (rule miss)
  qed
qed

lemma cache_inv_parse:
  assumes "cache_inv c" "parse B t c = (r, c')"
  shows "cache_inv c'"
  using assms(2)
proof (cases rule: parse_cases)
  case (miss s)
  have "fst (cache_key t) \<notin> (\<lambda>e. fst (fst e)) ` set (evict (cache_key t) c)"
  proof
    assume "fst (cache_key t) \<in> (\<lambda>e. fst (fst e)) ` set (evict (cache_key t) c)"
    then obtain e where "e \<in> set (evict (cache_key t) c)" "fst (fst e) = fst (cache_key t)"
      by (auto simp: image_iff)
    with evict_no_path[OF miss(1)] show False by blast
  qed
  moreover have "distinct (map (\<lambda>e. fst (fst e)) (evict (cache_key t) c))"
    using assms(1) by (simp add: cache_inv_def distinct_evict)
  moreover have "Suc (length (evict (cache_key t) c)) \<le> PARSE_CACHE_MAX"
    using assms(1) by (simp add: cache_inv_def length_evict)
  ultimately show ?thesis by (simp add: miss(4) cache_inv_def)
next
  case (hit s) with assms(1) show ?thesis by simp
next
  case (fail e) with assms(1) show ?thesis by simp
qed

lemma reachable_inv: "reachable B c \<Longrightarrow> cache_inv c"
proof (induction rule: reachable.induct)
  case reachable_empty
  show ?case by (simp add: cache_inv_def)
next
  case (reachable_parse c t r c')
  then show ?case by (blast intro: cache_inv_parse)
qed

lemma distinct_filter_le1: "distinct (map f xs) \<Longrightarrow> length (filter (\<lambda>e. f e = p) xs) \<le> 1"
proof (induction xs)
  case Nil
  show ?case by simp
next
  case (Cons a xs)
  show ?case
  proof (cases "f a = p")
    case True
    with Cons.prems have "filter (\<lambda>e. f e = p) xs = []"
      by (auto simp: filter_empty_conv image_iff)
    with True show ?thesis by simp
  next
    case False
    with Cons show ?thesis by simp
  qed
qed

text \<open>
  C5, amended. After every call of \<open>parse\<close>, from any cache that calls of \<open>parse\<close> can have
  produced: the cache holds at most one entry for the resolved path and at most 64 entries
  in all. A call that raises leaves the cache as it was. When the call returns a session,
  the one entry for the path is the one of the current modification time (entries of the
  path with another modification time are gone); and on a miss the new entry is appended
  after the stale entries were deleted and, if 64 or more entries remained, the oldest of
  them (the head of the insertion order) too.
\<close>

theorem parse_cache_bounded:
  assumes "reachable B c" and "parse B t c = (r, c')"
  shows "reachable B c'
    \<and> length (filter (\<lambda>e. fst (fst e) = resolved t) c') \<le> 1
    \<and> length c' \<le> PARSE_CACHE_MAX
    \<and> (\<forall>e. r = Inl e \<longrightarrow> c' = c)
    \<and> (\<forall>s. r = Inr s \<longrightarrow> filter (\<lambda>e. fst (fst e) = resolved t) c' = [(cache_key t, s)])
    \<and> (\<forall>s. r = Inr s \<and> map_of c (cache_key t) = None \<longrightarrow>
          (let c1 = filter (\<lambda>e. \<not> stale (cache_key t) (fst e)) c
           in c' = (if length c1 \<ge> PARSE_CACHE_MAX then tl c1 else c1) @ [(cache_key t, s)]))"
proof -
  have r': "reachable B c'" using assms by (rule reachable_parse)
  then have inv': "cache_inv c'" by (rule reachable_inv)
  have one: "length (filter (\<lambda>e. fst (fst e) = resolved t) c') \<le> 1"
    using inv' distinct_filter_le1[of "\<lambda>e. fst (fst e)" c' "resolved t"] by (simp add: cache_inv_def)
  have len: "length c' \<le> PARSE_CACHE_MAX" using inv' by (simp add: cache_inv_def)
  have raised: "c' = c" if "r = Inl e" for e
    using assms(2) that by (cases rule: parse_cases) simp_all
  have ret: "filter (\<lambda>e. fst (fst e) = resolved t) c' = [(cache_key t, s)]" if "r = Inr s" for s
    using assms(2)
  proof (cases rule: parse_cases)
    case (hit s')
    with that have "(cache_key t, s) \<in> set c'" by (auto dest: map_of_SomeD)
    then have "(cache_key t, s) \<in> set (filter (\<lambda>e. fst (fst e) = resolved t) c')"
      by (simp add: cache_key_def)
    with one show ?thesis
      by (cases "filter (\<lambda>e. fst (fst e) = resolved t) c'") (auto split: if_splits)
  next
    case (miss s')
    have "filter (\<lambda>e. fst (fst e) = resolved t) (evict (cache_key t) c) = []"
      using evict_no_path[OF miss(1)] by (auto simp: filter_empty_conv cache_key_def)
    with miss that show ?thesis by (simp add: cache_key_def)
  next
    case (fail e) with that show ?thesis by simp
  qed
  have ev: "(let c1 = filter (\<lambda>e. \<not> stale (cache_key t) (fst e)) c
           in c' = (if length c1 \<ge> PARSE_CACHE_MAX then tl c1 else c1) @ [(cache_key t, s)])"
    if "r = Inr s" "map_of c (cache_key t) = None" for s
    using assms(2)
  proof (cases rule: parse_cases)
    case (miss s')
    with that show ?thesis by (simp add: evict_def Let_def)
  next
    case (hit s') with that show ?thesis by simp
  next
    case (fail e) with that show ?thesis by simp
  qed
  from r' one len raised ret ev show ?thesis by blast
qed

lemma cache_key_ex_codex: "cache_key (ex_codex m) = (''/logs/rollout-2.jsonl'', m)"
  by (simp add: cache_key_def ex_codex_def)

lemma normalize_ex_codex: "normalize B (ex_codex m) = Inr ex_codex_session"
  by (simp add: normalize_def auto_detect_def ex_codex_def ex_codex_lines_def detect_record_def
      parse_codex_def codex_records_def read_jsonl_def codex_record_def codex_response_item_def
      codex_event_msg_def add_tokens_def py_add_def py_or_def
      codex_tool_type_def finish_main_def sort_events_def append_event_def mk_session_def
      ex_codex_session_def mk_event_def mk_agent_def)

lemma parse_ex_codex:
  "parse B (ex_codex m) [] = (Inr ex_codex_session, [((''/logs/rollout-2.jsonl'', m), ex_codex_session)])"
  using parse_miss[of "[]" "ex_codex m" B ex_codex_session]
  by (simp add: normalize_ex_codex cache_key_ex_codex evict_def PARSE_CACHE_MAX_def)

lemma parse_ex_codex_again:
  "parse B (ex_codex 6) [((''/logs/rollout-2.jsonl'', 5), ex_codex_session)]
     = (Inr ex_codex_session, [((''/logs/rollout-2.jsonl'', 6), ex_codex_session)])"
  using parse_miss[of "[((''/logs/rollout-2.jsonl'', 5), ex_codex_session)]" "ex_codex 6" B ex_codex_session]
  by (simp add: normalize_ex_codex cache_key_ex_codex evict_def PARSE_CACHE_MAX_def stale_def)

lemma reachable_ex_codex: "reachable B [((''/logs/rollout-2.jsonl'', 5), ex_codex_session)]"
  using reachable_parse[OF reachable_empty parse_ex_codex[of B 5]] .

text \<open>
  The file of the example is parsed, modified (its modification time goes from 5 to 6)
  and parsed again: the cache then holds the new entry only.
\<close>

theorem parse_cache_bounded_witness:
  "reachable ex_builtins [((''/logs/rollout-2.jsonl'', 5), ex_codex_session)]
   \<and> parse ex_builtins (ex_codex 6) [((''/logs/rollout-2.jsonl'', 5), ex_codex_session)]
       = (Inr ex_codex_session, [((''/logs/rollout-2.jsonl'', 6), ex_codex_session)])
   \<and> length (filter (\<lambda>e. fst (fst e) = resolved (ex_codex 6))
                [((''/logs/rollout-2.jsonl'', 6), ex_codex_session)]) \<le> 1
   \<and> length [((''/logs/rollout-2.jsonl'', 6), ex_codex_session)] \<le> PARSE_CACHE_MAX
   \<and> filter (\<lambda>e. fst (fst e) = resolved (ex_codex 6))
        [((''/logs/rollout-2.jsonl'', 6), ex_codex_session)]
       = [(cache_key (ex_codex 6), ex_codex_session)]"
  using parse_cache_bounded[OF reachable_ex_codex parse_ex_codex_again, of ex_builtins]
    reachable_ex_codex[of ex_builtins] parse_ex_codex_again[of ex_builtins]
  by simp

text \<open>
  C5 claims that the entries of the path with another modification time are purged after
  every call. The purge comes after the normalizer has returned: the rollout of the
  example is cached at modification time 5, then modified and made unreadable; the call
  raises \<open>OSError\<close> and the entry of time 5 is still in the cache, although the file now
  has time 6.
\<close>

theorem parse_raises_keeps_stale_entry:
  "reachable ex_builtins [((''/logs/rollout-2.jsonl'', 5), ex_codex_session)]
   \<and> cache_key ex_codex_unreadable = (''/logs/rollout-2.jsonl'', 6)
   \<and> parse ex_builtins ex_codex_unreadable [((''/logs/rollout-2.jsonl'', 5), ex_codex_session)]
       = (Inl OSError, [((''/logs/rollout-2.jsonl'', 5), ex_codex_session)])"
proof -
  have k: "cache_key ex_codex_unreadable = (''/logs/rollout-2.jsonl'', 6)"
    by (simp add: cache_key_def ex_codex_unreadable_def ex_codex_def)
  have n: "normalize ex_builtins ex_codex_unreadable = Inl OSError"
    by (simp add: normalize_def auto_detect_def ex_codex_unreadable_def ex_codex_def)
  have "map_of [((''/logs/rollout-2.jsonl'', 5 :: int), ex_codex_session)] (cache_key ex_codex_unreadable) = None"
    by (simp add: k)
  from parse_fail[OF this n] reachable_ex_codex[of ex_builtins] k show ?thesis by simp
qed

subsection \<open>Loops that only append events\<close>

lemma foldE_rel:
  assumes "foldE f s xs = Inr s'"
    and "\<And>s x s'. f s x = Inr s' \<Longrightarrow> R s s'"
    and "\<And>s. R s s"
    and "\<And>a b c. R a b \<Longrightarrow> R b c \<Longrightarrow> R a c"
  shows "R s s'"
  using assms(1)
proof (induction xs arbitrary: s)
  case Nil
  then show ?case using assms(3) by simp
next
  case (Cons x xs)
  then obtain s1 where "f s x = Inr s1" "foldE f s1 xs = Inr s'"
    by (auto simp: bindE_eq_Inr)
  then show ?case using Cons.IH assms(2,4) by blast
qed

lemma appends_refl [simp]: "appends Q s s"
  by (simp add: appends_def)

lemma appends_trans: "appends Q a b \<Longrightarrow> appends Q b c \<Longrightarrow> appends Q a c"
  by (auto simp: appends_def)

lemma appends_append_event [simp]: "Q e \<Longrightarrow> appends Q s (append_event s e)"
  by (auto simp: appends_def append_event_def agent_ids_def)

lemma agent_ids_update:
  "map_of xs k = Some a \<Longrightarrow> id_ag a' = id_ag a \<Longrightarrow>
   map (\<lambda>ka. (fst ka, id_ag (snd ka))) (AList.update k a' xs) = map (\<lambda>ka. (fst ka, id_ag (snd ka))) xs"
  by (induction xs) (auto split: if_splits)

lemma add_tokens_frame:
  assumes "add_tokens B k i out c s = Inr s'"
  shows "events s' = events s" "agent_ids s' = agent_ids s" "start_time s' = start_time s"
  using assms
  by (auto simp: add_tokens_def bindE_eq_Inr agent_ids_def agent_ids_update split: option.splits)

lemma appends_add_tokens: "add_tokens B k i out c s = Inr s' \<Longrightarrow> appends Q s s'"
  by (simp add: appends_def add_tokens_frame)

lemma clen_slice: "py_slice n v = Inr c \<Longrightarrow> clen c \<le> n"
  by (cases v) auto


lemma bindE_InrE:
  assumes "bindE m f = Inr y"
  obtains x where "m = Inr x" "f x = Inr y"
  using assms by (auto simp: bindE_eq_Inr)

lemma main_event_ok_text [simp]:
  "ty \<noteq> TOOL_RESULT \<Longrightarrow> ty \<notin> tool_call_types \<Longrightarrow> main_event_ok (mk_event ts ty ''main'' c)"
  by (simp add: main_event_ok_def mk_event_def)

lemma main_event_ok_result [simp]:
  "clen c \<le> 2000 \<Longrightarrow> main_event_ok (mk_event ts TOOL_RESULT ''main'' c)"
  by (simp add: main_event_ok_def mk_event_def tool_call_types_def)

lemma main_event_ok_call:
  "ty \<noteq> TOOL_RESULT \<Longrightarrow> clen c \<le> 500 \<Longrightarrow>
   main_event_ok ((mk_event ts ty ''main'' c)\<lparr>tool_name := tool\<rparr>)"
  by (simp add: main_event_ok_def mk_event_def)

lemma main_event_ok_call_name [simp]:
  "ty \<noteq> TOOL_RESULT \<Longrightarrow> main_event_ok ((mk_event ts ty ''main'' tool)\<lparr>tool_name := tool\<rparr>)"
  by (simp add: main_event_ok_def mk_event_def)

lemma codex_tool_type_not_result [simp]: "codex_tool_type tool \<noteq> TOOL_RESULT"
  by (simp add: codex_tool_type_def)

lemma not_tool_call [simp]: "USER \<notin> tool_call_types" "TEXT \<notin> tool_call_types" "THINK \<notin> tool_call_types"
  by (simp_all add: tool_call_types_def)

lemma codex_response_item_appends:
  "codex_response_item B s rec ts = Inr s' \<Longrightarrow> appends main_event_ok s s'"
  unfolding codex_response_item_def
  by (auto elim!: bindE_InrE dest!: clen_slice simp: main_event_ok_call split: if_splits)

lemma codex_event_msg_appends:
  assumes "codex_event_msg B s rec = Inr s'"
  shows "appends Q s s'"
  using assms unfolding codex_event_msg_def
  by (auto elim!: bindE_InrE intro: appends_add_tokens split: if_splits)

lemma appends_meta [simp]:
  "appends Q s (s\<lparr>start_time := a, version := b\<rparr>)" "appends Q s (s\<lparr>version := b\<rparr>)"
  "appends Q s (s\<lparr>id_se := c, start_time := a\<rparr>)"
  by (simp_all add: appends_def agent_ids_def)

lemma codex_record_appends:
  "codex_record B s rec = Inr s' \<Longrightarrow> appends main_event_ok s s'"
  unfolding codex_record_def
  by (auto elim!: bindE_InrE simp: codex_event_msg_appends codex_response_item_appends
      split: if_splits)


lemma appends_then_event: "appends Q s s1 \<Longrightarrow> Q e \<Longrightarrow> appends Q s (append_event s1 e)"
  using appends_trans[of Q s s1 "append_event s1 e"] by simp

lemma gemini_tool_type_not_result [simp]: "gemini_tool_type tool l \<noteq> TOOL_RESULT"
  by (simp add: gemini_tool_type_def)

lemma gemini_text_event_appends:
  "gemini_text_event role ts s part = Inr s' \<Longrightarrow> appends main_event_ok s s'"
  unfolding gemini_text_event_def by (auto elim!: bindE_InrE)

lemma gemini_call_event_appends:
  "gemini_call_event B ts s part = Inr s' \<Longrightarrow> appends main_event_ok s s'"
  unfolding gemini_call_event_def
  by (auto elim!: bindE_InrE simp: main_event_ok_call split: if_splits)

lemma gemini_response_event_appends:
  "gemini_response_event B ts s part = Inr s' \<Longrightarrow> appends main_event_ok s s'"
  unfolding gemini_response_event_def by (auto elim!: bindE_InrE split: if_splits)

lemma gemini_part_appends:
  assumes "gemini_part B role ts s part = Inr s'"
  shows "appends main_event_ok s s'"
proof (cases "is_dict part")
  case False
  with assms show ?thesis by (simp add: gemini_part_def)
next
  case True
  with assms obtain s1 s2 where "gemini_text_event role ts s part = Inr s1"
    "gemini_call_event B ts s1 part = Inr s2" "gemini_response_event B ts s2 part = Inr s'"
    unfolding gemini_part_def by (auto elim!: bindE_InrE)
  then show ?thesis
    by (blast intro: appends_trans gemini_text_event_appends gemini_call_event_appends
        gemini_response_event_appends)
qed

lemma foldE_appends:
  assumes "foldE f s xs = Inr s'" and "\<And>s x s'. f s x = Inr s' \<Longrightarrow> appends Q s s'"
  shows "appends Q s s'"
  using assms(1) by (rule foldE_rel) (auto intro: assms(2) appends_trans)

lemma gemini_message_appends:
  assumes "gemini_message B s msg = Inr s'"
  shows "appends main_event_ok s s'"
  using assms unfolding gemini_message_def
  by (auto elim!: bindE_InrE split: if_splits intro: foldE_appends gemini_part_appends)

lemma parse_gemini_json_appends:
  assumes "parse_gemini_json B t s = Inr s'"
  shows "appends main_event_ok s s'"
proof -
  have step: "appends main_event_ok s1 s'" if "foldE (gemini_message B) s1 msgs = Inr s'" for s1 msgs
    using that by (rule foldE_appends) (rule gemini_message_appends)
  show ?thesis
    using assms unfolding parse_gemini_json_def
    by (auto elim!: bindE_InrE split: document.splits if_splits dest!: step
        intro: appends_trans[OF appends_meta(3)])
qed

lemma gemini_block_appends:
  assumes "gemini_block B ts st block = Inr st'"
  shows "appends main_event_ok (fst st) (fst st')"
  using assms unfolding gemini_block_def
  by (cases st) (auto elim!: bindE_InrE simp: main_event_ok_call Let_def split: if_splits)

lemma gemini_record_appends:
  assumes "gemini_record B s rec = Inr s'"
  shows "appends main_event_ok s s'"
proof -
  have blocks: "appends main_event_ok s (fst st')"
    if "foldE (gemini_block B ts) (s, []) blocks = Inr st'" for ts blocks st'
    using foldE_rel[where R="\<lambda>a b. appends main_event_ok (fst a) (fst b)", OF that]
    by (auto intro: gemini_block_appends appends_trans)
  show ?thesis
    using assms unfolding gemini_record_def
    by (auto elim!: bindE_InrE dest!: blocks appends_add_tokens[where Q=main_event_ok]
        intro!: appends_then_event split: if_splits)
qed

lemma gemini_records_appends:
  assumes "gemini_records B t = Inr s'"
  shows "list_all main_event_ok (events s') \<and> agent_ids s' = [(''main'', ''main'')]"
proof -
  let ?s = "(mk_session (JStr (stem t)))\<lparr>agents := [(''main'', mk_agent ''main'' ''Gemini'' False ''blue'')]\<rparr>"
  have "appends main_event_ok ?s s'"
    using assms unfolding gemini_records_def Let_def parse_gemini_jsonl_def
    by (auto elim!: bindE_InrE split: if_splits
        intro: parse_gemini_json_appends foldE_appends gemini_record_appends)
  then show ?thesis by (auto simp: appends_def mk_session_def agent_ids_def mk_agent_def)
qed

lemma codex_records_appends:
  assumes "codex_records B t = Inr s'"
  shows "list_all main_event_ok (events s') \<and> agent_ids s' = [(''main'', ''main'')]"
proof -
  let ?s = "(mk_session (JStr (stem t)))\<lparr>agents := [(''main'', mk_agent ''main'' ''Codex'' False ''green'')]\<rparr>"
  have "appends main_event_ok ?s s'"
    using assms unfolding codex_records_def
    by (auto elim!: bindE_InrE intro: foldE_appends codex_record_appends)
  then show ?thesis by (auto simp: appends_def mk_session_def agent_ids_def mk_agent_def)
qed

subsection \<open>The sort, and the sessions of the Codex and Gemini normalizers\<close>

lemma sort_events_set:
  assumes "sort_rearranges B" "sort_events B evs = Inr r"
  shows "set r = set evs"
  using assms by (auto simp: sort_events_def sort_rearranges_def split: if_splits)

lemma sort_events_strings:
  assumes "list_all (\<lambda>e. is_str (timestamp e)) evs"
  shows "sort_events B evs = Inr (sort_key (\<lambda>e. str_of (timestamp e)) evs)"
proof (cases "length evs \<le> 1")
  case True
  then have "sort_key (\<lambda>e. str_of (timestamp e)) evs = evs"
    by (cases evs) (auto simp: le_Suc_eq)
  with True show ?thesis by (simp add: sort_events_def)
next
  case False
  with assms show ?thesis by (simp add: sort_events_def)
qed

lemma sorted_wrt_sort_key:
  "sorted_wrt (\<lambda>a b. f a \<le> f b) (sort_key f xs)"
  using sorted_sort_key[of f xs] by (simp add: sorted_map)

lemma filter_sort_key_factor:
  "filter (\<lambda>e. g e = k) (sort_key (\<lambda>e. h (g e)) xs) = filter (\<lambda>e. g e = k) xs"
proof -
  have "filter (\<lambda>e. g e = k) (sort_key (\<lambda>e. h (g e)) xs)
      = filter (\<lambda>e. g e = k) (filter (\<lambda>e. h (g e) = h k) (sort_key (\<lambda>e. h (g e)) xs))"
    by (auto intro: filter_cong)
  also have "\<dots> = filter (\<lambda>e. g e = k) (filter (\<lambda>e. h (g e) = h k) xs)"
    by (simp only: sort_key_stable)
  also have "\<dots> = filter (\<lambda>e. g e = k) xs"
    by (auto intro: filter_cong)
  finally show ?thesis .
qed

text \<open>
  When the sorted list has string timestamps only, so had the list before the sort, and
  the sort was the stable sort of strings.
\<close>

lemma sort_events_strings_result:
  assumes "sort_rearranges B" "sort_events B evs = Inr r" "list_all (\<lambda>e. is_str (timestamp e)) r"
  shows "r = sort_key (\<lambda>e. str_of (timestamp e)) evs"
proof -
  from sort_events_set[OF assms(1,2)] assms(3) have "list_all (\<lambda>e. is_str (timestamp e)) evs"
    by (simp add: list_all_iff)
  from sort_events_strings[OF this, of B] assms(2) show ?thesis by simp
qed

lemma finish_main_frame:
  assumes "finish_main B s = Inr s'"
  shows "sort_events B (events s) = Inr (events s')" "agent_ids s' = agent_ids s"
  using assms unfolding finish_main_def
  by (auto elim!: bindE_InrE simp: agent_ids_def split: list.splits)

lemma finish_main_ok:
  assumes "sort_rearranges B" "finish_main B s = Inr s'" "main_session_ok s"
  shows "main_session_ok s'"
  using finish_main_frame[OF assms(2)] assms(3) sort_events_set[OF assms(1), of "events s" "events s'"]
  by (auto simp: main_session_ok_def list_all_iff)

lemma normalize_cases:
  assumes "normalize B t = Inr s"
  obtains (claude) "auto_detect t = Inr ''claude_code''" "parse_claude_code B t = Inr s"
  | (gemini) "auto_detect t = Inr ''gemini''" "parse_gemini B t = Inr s"
  | (codex) fmt where "auto_detect t = Inr fmt" "fmt \<noteq> ''claude_code''" "fmt \<noteq> ''gemini''"
      "parse_codex B t = Inr s"
  using assms unfolding normalize_def by (auto elim!: bindE_InrE split: if_splits)

lemma parse_codex_ok:
  assumes "sort_rearranges B" "parse_codex B t = Inr s"
  shows "main_session_ok s"
proof -
  from assms(2) obtain s0 where "codex_records B t = Inr s0" "finish_main B s0 = Inr s"
    unfolding parse_codex_def by (elim bindE_InrE)
  from codex_records_appends[OF this(1)] have "main_session_ok s0"
    by (simp add: main_session_ok_def)
  with assms(1) \<open>finish_main B s0 = Inr s\<close> show ?thesis by (rule finish_main_ok)
qed

lemma parse_gemini_ok:
  assumes "sort_rearranges B" "parse_gemini B t = Inr s"
  shows "main_session_ok s"
proof -
  from assms(2) obtain s0 where "gemini_records B t = Inr s0" "finish_main B s0 = Inr s"
    unfolding parse_gemini_def by (elim bindE_InrE)
  from gemini_records_appends[OF this(1)] have "main_session_ok s0"
    by (simp add: main_session_ok_def)
  with assms(1) \<open>finish_main B s0 = Inr s\<close> show ?thesis by (rule finish_main_ok)
qed

lemma normalize_main_session_ok:
  assumes "sort_rearranges B" "auto_detect t = Inr fmt" "fmt \<noteq> ''claude_code''"
    "normalize B t = Inr s"
  shows "main_session_ok s"
  using assms(4)
proof (cases rule: normalize_cases)
  case claude
  with assms(2,3) show ?thesis by simp
next
  case gemini
  with assms(1) show ?thesis by (simp add: parse_gemini_ok)
next
  case (codex fmt')
  with assms(1) show ?thesis by (simp add: parse_codex_ok)
qed

lemma sort_rearranges_ex_builtins: "sort_rearranges ex_builtins"
  by (simp add: sort_rearranges_def ex_builtins_def)

lemma auto_detect_ex_codex: "auto_detect (ex_codex m) = Inr ''codex''"
  by (simp add: auto_detect_def ex_codex_def ex_codex_lines_def detect_record_def)

text \<open>
  C10. For the Codex and Gemini dialects (the file is not detected as Claude Code), every
  event of the session that the normalizer returns carries zero input, output and
  cache-read token counts, and the only agent of the session is the main agent: token
  usage of these dialects goes to its counters only.
\<close>

theorem codex_gemini_events_carry_no_tokens:
  assumes "sort_rearranges B"
    and "auto_detect t = Inr fmt" and "fmt \<noteq> ''claude_code''" and "normalize B t = Inr s"
  shows "(\<forall>e \<in> set (events s).
            input_tokens e = JInt 0 \<and> output_tokens e = JInt 0 \<and> cache_read_tokens e = JInt 0)
         \<and> map fst (agents s) = [''main'']"
proof -
  from assms have ok: "main_session_ok s" by (rule normalize_main_session_ok)
  then have "\<forall>e \<in> set (events s). main_event_ok e"
    by (simp add: main_session_ok_def list_all_iff)
  moreover from ok have "map fst (agent_ids s) = [''main'']" by (simp add: main_session_ok_def)
  then have "map fst (agents s) = [''main'']" by (simp add: agent_ids_def comp_def)
  ultimately show ?thesis by (simp add: main_event_ok_def)
qed

text \<open>
  On the Codex rollout of the example the token count of 10 input and 4 output tokens is
  on the main agent and the two events carry zeros.
\<close>

theorem codex_gemini_events_carry_no_tokens_witness:
  "sort_rearranges ex_builtins
   \<and> auto_detect (ex_codex 5) = Inr ''codex'' \<and> ''codex'' \<noteq> ''claude_code''
   \<and> normalize ex_builtins (ex_codex 5) = Inr ex_codex_session
   \<and> map input_tokens (events ex_codex_session) = [JInt 0, JInt 0]
   \<and> map output_tokens (events ex_codex_session) = [JInt 0, JInt 0]
   \<and> map cache_read_tokens (events ex_codex_session) = [JInt 0, JInt 0]
   \<and> map fst (agents ex_codex_session) = [''main'']
   \<and> map (\<lambda>ka. input_tokens_ag (snd ka)) (agents ex_codex_session) = [JInt 10]"
  using codex_gemini_events_carry_no_tokens[of ex_builtins "ex_codex 5" "''codex''" ex_codex_session]
    sort_rearranges_ex_builtins auto_detect_ex_codex[of 5] normalize_ex_codex[of ex_builtins 5]
  by (simp add: ex_codex_session_def)

subsection \<open>Truncation of tool payloads\<close>

lemma replicate_neq: "length s \<noteq> n \<Longrightarrow> replicate n c \<noteq> s"
  by auto

lemma normalize_ex_claude_long: "normalize B ex_claude_long = Inr ex_claude_long_session"
  by (simp add: normalize_def auto_detect_def ex_claude_long_def detect_record_def
      parse_claude_code_def claude_records_def read_jsonl_def discover_subagents_def
      process_lines_def process_rec_def user_record_def user_block_def
      sort_events_def append_event_def mk_session_def set_spawn_time_def
      ex_claude_long_session_def mk_event_def mk_agent_def)

text \<open>
  C7 claims that every tool result has at most 2000 characters and every tool call at
  most 500, for all three dialects. \<open>_process_lines\<close> stores \<open>str(result_text)\<close> as it is:
  the Claude Code transcript whose tool result has 2001 characters gives a tool-result
  event of 2001 characters.
\<close>

theorem claude_tool_result_not_truncated:
  "fst (parse ex_builtins ex_claude_long []) = Inr ex_claude_long_session
   \<and> map (\<lambda>e. (type_ev e, clen (content e))) (events ex_claude_long_session) = [(TOOL_RESULT, 2001)]"
proof -
  have "map_of ([] :: cache) (cache_key ex_claude_long) = None" by simp
  then have "parse ex_builtins ex_claude_long []
      = (Inr ex_claude_long_session,
         evict (cache_key ex_claude_long) [] @ [(cache_key ex_claude_long, ex_claude_long_session)])"
    using normalize_ex_claude_long by (rule parse_miss)
  then show ?thesis by (simp add: ex_claude_long_session_def mk_event_def)
qed

text \<open>
  Nor is the bound of 500 met by every tool call of the other dialects: without arguments
  the content of the event is the tool name, whatever its length.
\<close>

lemma codex_tool_name_not_truncated:
  "map (\<lambda>e. (type_ev e, clen (content e)))
     (case normalize B ex_codex_long_name of Inr s \<Rightarrow> events s | Inl e \<Rightarrow> [])
   = [(TOOL_CALL, 501)]"
  by (simp add: normalize_def auto_detect_def ex_codex_long_name_def detect_record_def
      parse_codex_def codex_records_def read_jsonl_def codex_record_def codex_response_item_def
      codex_tool_type_def finish_main_def sort_events_def append_event_def mk_session_def
      mk_event_def mk_agent_def replicate_neq)

text \<open>
  C7, amended. For the Codex and Gemini dialects, every tool-result event has a content of
  length at most 2000, and every tool-call event (types tool\_call, bash, file\_create,
  file\_update, file\_read) has a content of length at most 500 or, when the call has no
  arguments, the tool name as its content. The length counts the characters of a string
  and, for a Codex payload that is a JSON array, its elements.
\<close>

theorem codex_gemini_payloads_truncated:
  assumes "sort_rearranges B"
    and "auto_detect t = Inr fmt" and "fmt \<noteq> ''claude_code''" and "normalize B t = Inr s"
  shows "\<forall>e \<in> set (events s).
           (type_ev e = TOOL_RESULT \<longrightarrow> clen (content e) \<le> 2000) \<and>
           (type_ev e \<in> tool_call_types \<longrightarrow> clen (content e) \<le> 500 \<or> content e = tool_name e)"
proof -
  from assms have "main_session_ok s" by (rule normalize_main_session_ok)
  then have "\<forall>e \<in> set (events s). main_event_ok e"
    by (simp add: main_session_ok_def list_all_iff)
  then show ?thesis by (simp add: main_event_ok_def)
qed

theorem codex_gemini_payloads_truncated_witness:
  "sort_rearranges ex_builtins
   \<and> auto_detect (ex_codex 5) = Inr ''codex'' \<and> ''codex'' \<noteq> ''claude_code''
   \<and> normalize ex_builtins (ex_codex 5) = Inr ex_codex_session
   \<and> map type_ev (events ex_codex_session) = [BASH, TOOL_RESULT]
   \<and> clen (content (events ex_codex_session ! 0)) \<le> 500
   \<and> clen (content (events ex_codex_session ! 1)) \<le> 2000"
  using codex_gemini_payloads_truncated[of ex_builtins "ex_codex 5" "''codex''" ex_codex_session]
    sort_rearranges_ex_builtins auto_detect_ex_codex[of 5] normalize_ex_codex[of ex_builtins 5]
  by (simp add: ex_codex_session_def mk_event_def)

subsection \<open>The sessions of the Claude Code normalizer\<close>

lemma appends_mono: "appends Q s s' \<Longrightarrow> (\<And>e. Q e \<Longrightarrow> Q' e) \<Longrightarrow> appends Q' s s'"
  by (auto simp: appends_def list_all_iff)

lemma user_block_appends:
  "user_block B aid ts s block = Inr s' \<Longrightarrow> appends (\<lambda>e. agent_id e = aid) s s'"
  unfolding user_block_def
  by (auto elim!: bindE_InrE simp: mk_event_def split: if_splits json.splits)

lemma user_record_appends:
  assumes "user_record B aid ts s rec = Inr s'"
  shows "appends (\<lambda>e. agent_id e = aid) s s'"
proof -
  have f: "appends (\<lambda>e. agent_id e = aid) s1 s'"
    if "foldE (user_block B aid ts) s1 blocks = Inr s'" for s1 blocks
    using that by (rule foldE_appends) (rule user_block_appends)
  have a: "appends (\<lambda>e. agent_id e = aid) s (append_event s (mk_event ts USER aid c))" for c
    by (simp add: mk_event_def)
  show ?thesis
    using assms unfolding user_record_def Let_def
    by (auto elim!: bindE_InrE dest!: f simp: mk_event_def split: if_splits json.splits
        intro: appends_trans[OF a])
qed

lemma assistant_block_appends:
  assumes "assistant_block B aid ts rid toks st block = Inr st'"
  shows "appends (\<lambda>e. agent_id e = aid) (fst st) (fst st')"
  using assms unfolding assistant_block_def
  by (cases st)
    (auto elim!: bindE_InrE simp: mk_event_def with_tokens_def split: if_splits prod.splits)

lemma count_request_appends:
  assumes "count_request B aid rid toks st = Inr st'"
  shows "appends Q (fst st) (fst st')"
  using assms unfolding count_request_def
  by (cases st) (auto elim!: bindE_InrE dest!: appends_add_tokens[where Q=Q]
      split: if_splits option.splits prod.splits)

lemma assistant_body_appends:
  assumes "assistant_body B aid ts rid toks content_blocks st = Inr st'"
  shows "appends (\<lambda>e. agent_id e = aid) (fst st) (fst st')"
proof -
  have f: "appends (\<lambda>e. agent_id e = aid) (fst st1) (fst st2)"
    if "foldE (assistant_block B aid ts rid toks) st1 blocks = Inr st2" for st1 st2 blocks
    using foldE_rel[where R="\<lambda>a b. appends (\<lambda>e. agent_id e = aid) (fst a) (fst b)", OF that]
    by (auto intro: assistant_block_appends appends_trans)
  show ?thesis
    using assms unfolding assistant_body_def
    by (cases st)
      (auto elim!: bindE_InrE dest!: f count_request_appends[where Q="\<lambda>e. agent_id e = aid"]
        split: json.splits; blast intro: appends_trans)
qed

lemma assistant_record_appends:
  assumes "assistant_record B aid ts st rec = Inr st'"
  shows "appends (\<lambda>e. agent_id e = aid) (fst st) (fst st')"
  using assms unfolding assistant_record_def
  by (auto elim!: bindE_InrE dest!: assistant_body_appends)

lemma process_rec_appends:
  assumes "process_rec B aid st rec = Inr st'"
  shows "appends (\<lambda>e. agent_id e = aid) (fst st) (fst st')"
  using assms unfolding process_rec_def
  by (cases st)
    (auto elim!: bindE_InrE dest!: user_record_appends assistant_record_appends split: if_splits)

lemma process_lines_appends:
  assumes "process_lines B recs aid s = Inr s'"
  shows "appends (\<lambda>e. agent_id e = aid) s s'"
proof -
  from assms obtain st' where f: "foldE (process_rec B aid) (s, {}, {}) recs = Inr st'"
    and s': "s' = fst st'"
    unfolding process_lines_def by (auto elim!: bindE_InrE)
  from foldE_rel[where R="\<lambda>a b. appends (\<lambda>e. agent_id e = aid) (fst a) (fst b)", OF f]
  show ?thesis unfolding s' by (auto intro: process_rec_appends appends_trans)
qed

lemma set_update_keys: "fst ` set (AList.update k v xs) = insert k (fst ` set xs)"
  by (induction xs) auto

lemma agent_ids_update_set:
  "set (map (\<lambda>ka. (fst ka, id_ag (snd ka))) (AList.update k v xs))
     \<subseteq> insert (k, id_ag v) (set (map (\<lambda>ka. (fst ka, id_ag (snd ka))) xs))"
  by (induction xs) auto

lemma fst_agent_ids: "fst ` set (agent_ids s) = fst ` set (agents s)"
  by (force simp: agent_ids_def)

lemma register_subagent_ok:
  assumes "register_subagent st f = Inr st'" "reg_ok st"
  shows "reg_ok st'"
proof -
  obtain s idx subs where st: "st = (s, idx, subs)" by (cases st)
  from assms(1) consider (skip) "st' = st"
    | (reg) a v recs where "st' = (s\<lparr>agents := AList.update a v (agents s)\<rparr>, idx + 1, subs @ [(a, recs)])"
        "id_ag v = a"
    unfolding register_subagent_def st
    by (auto elim!: bindE_InrE simp: mk_agent_def split: list.splits)
  then show ?thesis
  proof cases
    case skip with assms(2) show ?thesis by simp
  next
    case reg
    have k: "fst ` set (agent_ids (s\<lparr>agents := AList.update a v (agents s)\<rparr>)) = insert a (fst ` set (agent_ids s))"
      by (simp add: fst_agent_ids set_update_keys)
    have i: "set (agent_ids (s\<lparr>agents := AList.update a v (agents s)\<rparr>)) \<subseteq> insert (a, a) (set (agent_ids s))"
      using agent_ids_update_set[of a v "agents s"] reg(2) by (simp add: agent_ids_def)
    from assms(2) show ?thesis unfolding reg(1) st reg_ok_def
      using i by (auto simp: k)
  qed
qed

lemma foldE_inv:
  assumes "foldE f s xs = Inr s'" "P s" "\<And>s x s'. f s x = Inr s' \<Longrightarrow> P s \<Longrightarrow> P s'"
  shows "P s'"
  using assms(1,2)
proof (induction xs arbitrary: s)
  case Nil
  then show ?case by simp
next
  case (Cons x xs)
  then obtain s1 where "f s x = Inr s1" "foldE f s1 xs = Inr s'"
    by (auto elim!: bindE_InrE)
  with Cons show ?case using assms(3) by blast
qed

lemma appends_session_ok:
  assumes "appends (\<lambda>e. agent_id e \<in> fst ` set (agent_ids s)) s s'" "session_ok s"
  shows "session_ok s'"
  using assms by (auto simp: appends_def session_ok_def list_all_iff)

lemma process_subagent_ok:
  assumes "process_subagent B s sub = Inr s'" "fst sub \<in> K" "agent_ids s = A"
  shows "appends (\<lambda>e. agent_id e \<in> K) s s'"
proof -
  from assms(1) have "appends (\<lambda>e. agent_id e = fst sub) s s'"
    unfolding process_subagent_def by (rule process_lines_appends)
  then show ?thesis by (rule appends_mono) (use assms(2) in simp)
qed

lemma claude_records_ok:
  assumes "claude_records B t = Inr (s, recs)"
  shows "session_ok s"
proof -
  let ?s0 = "(mk_session (JStr ''unknown''))\<lparr>agents := [(''main'', mk_agent ''main'' ''Main'' False ''cyan'')]\<rparr>"
  from assms obtain files s1 idx subs s2 where
    reg: "foldE register_subagent (?s0, 0, []) files = Inr (s1, idx, subs)"
    and main: "process_lines B recs ''main'' s1 = Inr s2"
    and sub: "foldE (process_subagent B) s2 subs = Inr s"
    unfolding claude_records_def by (auto elim!: bindE_InrE split: prod.splits)
  have "reg_ok (?s0, 0, [])" by (simp add: reg_ok_def mk_session_def agent_ids_def mk_agent_def)
  with reg have r1: "reg_ok (s1, idx, subs)" by (rule foldE_inv) (rule register_subagent_ok)
  let ?K = "fst ` set (agent_ids s1)"
  from r1 have ok1: "session_ok s1" by (simp add: reg_ok_def session_ok_def)
  from main have a2: "appends (\<lambda>e. agent_id e = ''main'') s1 s2" by (rule process_lines_appends)
  from r1 have mk: "''main'' \<in> ?K" by (simp add: reg_ok_def)
  from a2 have a2': "appends (\<lambda>e. agent_id e \<in> ?K) s1 s2"
    by (rule appends_mono) (use mk in simp)
  define R where "R = (\<lambda>a b. appends (\<lambda>e. agent_id e \<in> ?K) a b)"
  have "R s2 s"
    using sub r1
  proof (induction subs arbitrary: s2)
    case Nil
    then show ?case by (simp add: R_def)
  next
    case (Cons x xs)
    from Cons.prems(1) obtain s3 where x: "process_subagent B s2 x = Inr s3"
      and xs: "foldE (process_subagent B) s3 xs = Inr s" by (auto elim!: bindE_InrE)
    from Cons.prems(2) have xk: "fst x \<in> ?K" and r: "reg_ok (s1, idx, xs)"
      by (auto simp: reg_ok_def)
    from x xk have "R s2 s3" unfolding R_def by (rule process_subagent_ok) simp
    moreover from xs r have "R s3 s" by (rule Cons.IH)
    ultimately show ?case unfolding R_def by (rule appends_trans)
  qed
  with a2' have "appends (\<lambda>e. agent_id e \<in> ?K) s1 s" unfolding R_def by (rule appends_trans)
  with ok1 show ?thesis by (rule appends_session_ok[rotated])
qed


lemma set_metadata_frame:
  "set_metadata recs s = Inr s' \<Longrightarrow> events s' = events s \<and> agents s' = agents s"
  by (induction recs) (auto elim!: bindE_InrE split: if_splits)

lemma set_spawn_time_frame:
  "events (set_spawn_time s e) = events s" "agent_ids (set_spawn_time s e) = agent_ids s"
  by (auto simp: set_spawn_time_def agent_ids_def agent_ids_update split: option.splits)

lemma fold_set_spawn_time_frame:
  "events (fold (\<lambda>e s'. set_spawn_time s' e) evs s) = events s \<and>
   agent_ids (fold (\<lambda>e s'. set_spawn_time s' e) evs s) = agent_ids s"
  by (induction evs arbitrary: s) (simp_all add: set_spawn_time_frame)

lemma parse_claude_code_frame:
  assumes "parse_claude_code B t = Inr s"
  obtains s0 recs where "claude_records B t = Inr (s0, recs)"
    "sort_events B (events s0) = Inr (events s)" "agent_ids s = agent_ids s0"
proof -
  from assms obtain s0 recs evs s1 where c: "claude_records B t = Inr (s0, recs)"
    and so: "sort_events B (events s0) = Inr evs"
    and m: "set_metadata recs (s0\<lparr>events := evs\<rparr>) = Inr s1"
    and s: "s = fold (\<lambda>e s'. set_spawn_time s' e) evs s1"
    unfolding parse_claude_code_def by (auto elim!: bindE_InrE split: prod.splits)
  from set_metadata_frame[OF m] have "events s1 = evs" "agent_ids s1 = agent_ids s0"
    by (simp_all add: agent_ids_def)
  with s fold_set_spawn_time_frame[of evs s1] have "events s = evs" "agent_ids s = agent_ids s0"
    by simp_all
  with c so that show ?thesis by simp
qed

lemma parse_claude_code_ok:
  assumes "sort_rearranges B" "parse_claude_code B t = Inr s"
  shows "session_ok s"
  using assms(2)
proof (rule parse_claude_code_frame)
  fix s0 recs
  assume c: "claude_records B t = Inr (s0, recs)"
    and so: "sort_events B (events s0) = Inr (events s)" and a: "agent_ids s = agent_ids s0"
  from claude_records_ok[OF c] sort_events_set[OF assms(1) so] a show ?thesis
    by (simp add: session_ok_def)
qed

lemma main_session_ok_session_ok: "main_session_ok s \<Longrightarrow> session_ok s"
  by (auto simp: main_session_ok_def session_ok_def list_all_iff main_event_ok_def)

lemma normalize_session_ok:
  assumes "sort_rearranges B" "normalize B t = Inr s"
  shows "session_ok s"
  using assms(2)
  by (cases rule: normalize_cases)
    (auto intro: parse_claude_code_ok[OF assms(1)] main_session_ok_session_ok
       parse_gemini_ok[OF assms(1)] parse_codex_ok[OF assms(1)])

text \<open>
  Every entry of the cache is the session that the normalizers gave for a file of the
  path and modification time of its key.
\<close>

lemma reachable_normalized:
  assumes "reachable B c" "e \<in> set c"
  shows "\<exists>t. cache_key t = fst e \<and> normalize B t = Inr (snd e)"
  using assms
proof (induction arbitrary: e rule: reachable.induct)
  case reachable_empty
  then show ?case by simp
next
  case (reachable_parse c t r c')
  from reachable_parse.hyps(2) show ?case
  proof (cases rule: parse_cases)
    case (miss s)
    show ?thesis
    proof (cases "e \<in> set (evict (cache_key t) c)")
      case True
      with set_evict[of "cache_key t" c] have "e \<in> set c" by blast
      then show ?thesis by (rule reachable_parse.IH)
    next
      case False
      with reachable_parse.prems miss have "e = (cache_key t, s)" by auto
      with miss show ?thesis by auto
    qed
  next
    case (hit s)
    with reachable_parse show ?thesis by blast
  next
    case (fail err)
    with reachable_parse show ?thesis by blast
  qed
qed

text \<open>
  The session that \<open>parse\<close> returns is the one the normalizers give: for the file itself
  on a miss, and on a hit for the file as it was when the entry was cached, under the same
  path and modification time.
\<close>

lemma parse_returns_normalized:
  assumes "reachable B c" "parse B t c = (Inr s, c')"
  shows "\<exists>t0. cache_key t0 = cache_key t \<and> (map_of c (cache_key t) = None \<longrightarrow> t0 = t)
              \<and> normalize B t0 = Inr s"
  using assms(2)
proof (cases rule: parse_cases)
  case (hit s')
  then have "(cache_key t, s) \<in> set c" by (auto dest: map_of_SomeD)
  from reachable_normalized[OF assms(1) this] hit show ?thesis by auto
next
  case (miss s')
  then show ?thesis by auto
next
  case (fail err)
  then show ?thesis by simp
qed

lemma claude_records_ex_claude_sub:
  "claude_records B ex_claude_sub = Inr (ex_claude_sub_session\<lparr>start_time := JStr [], id_se := JStr ''unknown'',
     events := [mk_event (JStr ''2024-01-01T00:00:01Z'') USER ''main'' (JStr ''hello''),
                mk_event (JStr ''2024-01-01T00:00:03Z'') TEXT ''main'' (JStr ''done''),
                mk_event (JStr ''2024-01-01T00:00:02Z'') USER ''abc12345'' (JStr ''sub task'')],
     agents := [(''main'', (mk_agent ''main'' ''Main'' False ''cyan'')\<lparr>input_tokens_ag := JInt 10, output_tokens_ag := JInt 5\<rparr>),
                (''abc12345'', mk_agent ''abc12345'' ''abc1234'' True ''magenta'')]\<rparr>, records_of ex_claude_main_lines)"
  by (simp add: ex_claude_sub_def ex_claude_main_lines_def ex_claude_sub_lines_def
      claude_records_def read_jsonl_def discover_subagents_def register_subagent_def
      AGENT_COLORS_def process_subagent_def
      process_lines_def process_rec_def user_record_def assistant_record_def assistant_body_def request_key_def
      count_request_def add_tokens_def py_add_def assistant_block_def strip_def is_space_def
      append_event_def mk_session_def ex_claude_sub_session_def mk_event_def mk_agent_def)

lemma auto_detect_ex_claude_sub: "auto_detect ex_claude_sub = Inr ''claude_code''"
  by (simp add: auto_detect_def detect_record_def ex_claude_sub_def ex_claude_main_lines_def)

lemma parse_claude_code_ex_claude_sub: "parse_claude_code B ex_claude_sub = Inr ex_claude_sub_session"
  by (simp add: parse_claude_code_def claude_records_ex_claude_sub
      sort_events_def set_spawn_time_def ex_claude_main_lines_def
      ex_claude_sub_session_def mk_event_def mk_agent_def)

lemma normalize_ex_claude_sub: "normalize B ex_claude_sub = Inr ex_claude_sub_session"
  by (simp add: normalize_def auto_detect_ex_claude_sub parse_claude_code_ex_claude_sub)

lemma cache_key_ex_claude_sub: "cache_key ex_claude_sub = (''/logs/c2.jsonl'', 1)"
  by (simp add: cache_key_def ex_claude_sub_def)

lemma parse_ex_claude_sub:
  "parse B ex_claude_sub [] = (Inr ex_claude_sub_session, [((''/logs/c2.jsonl'', 1), ex_claude_sub_session)])"
  using parse_miss[of "[]" ex_claude_sub B ex_claude_sub_session]
  by (simp add: normalize_ex_claude_sub evict_def PARSE_CACHE_MAX_def cache_key_ex_claude_sub)

text \<open>
  C9. Every session that \<open>parse\<close> returns (from a cache that calls of \<open>parse\<close> can have
  produced) has an agent with id \<open>main\<close> under the key \<open>main\<close> of its agents map, and the
  agent id of every event is a key of that map.
\<close>

theorem parse_referential_integrity:
  assumes "sort_rearranges B" and "reachable B c" and "parse B t c = (Inr s, c')"
  shows "(\<exists>a. map_of (agents s) ''main'' = Some a \<and> id_ag a = ''main'')
         \<and> (\<forall>e \<in> set (events s). agent_id e \<in> fst ` set (agents s))"
proof -
  from assms(2,3) obtain t0 where "normalize B t0 = Inr s"
    by (blast dest: parse_returns_normalized)
  with assms(1) have ok: "session_ok s" by (rule normalize_session_ok)
  then have "''main'' \<in> fst ` set (agents s)" by (simp add: session_ok_def fst_agent_ids)
  then obtain a where a: "map_of (agents s) ''main'' = Some a"
    by (metis domD dom_map_of_conv_image_fst)
  then have "(''main'', a) \<in> set (agents s)" by (rule map_of_SomeD)
  then have "(''main'', id_ag a) \<in> set (agent_ids s)" by (force simp: agent_ids_def)
  with ok have "id_ag a = ''main''" by (auto simp: session_ok_def)
  with a ok show ?thesis by (auto simp: session_ok_def fst_agent_ids)
qed

text \<open>The session with one sub-agent: two agents, three events.\<close>

theorem parse_referential_integrity_witness:
  "sort_rearranges ex_builtins \<and> reachable ex_builtins []
   \<and> parse ex_builtins ex_claude_sub []
       = (Inr ex_claude_sub_session, [((''/logs/c2.jsonl'', 1), ex_claude_sub_session)])
   \<and> map (\<lambda>ka. (fst ka, id_ag (snd ka))) (agents ex_claude_sub_session)
       = [(''main'', ''main''), (''abc12345'', ''abc12345'')]
   \<and> map agent_id (events ex_claude_sub_session) = [''main'', ''abc12345'', ''main'']"
  using parse_referential_integrity[OF sort_rearranges_ex_builtins reachable_empty[of ex_builtins]
      parse_ex_claude_sub[of ex_builtins]]
    sort_rearranges_ex_builtins parse_ex_claude_sub[of ex_builtins] reachable_empty[of ex_builtins]
  by (simp add: ex_claude_sub_session_def mk_event_def mk_agent_def)

subsection \<open>Events are sorted by timestamp\<close>

lemma normalize_collect:
  assumes "normalize B t = Inr s"
  shows "\<exists>raw. collect B t = Inr raw \<and> sort_events B raw = Inr (events s)"
  using assms
proof (cases rule: normalize_cases)
  case claude
  from claude(2) show ?thesis
  proof (rule parse_claude_code_frame)
    fix s0 recs
    assume "claude_records B t = Inr (s0, recs)" "sort_events B (events s0) = Inr (events s)"
    with claude(1) show ?thesis by (simp add: collect_def)
  qed
next
  case gemini
  from gemini(2) obtain s0 where "gemini_records B t = Inr s0" "finish_main B s0 = Inr s"
    unfolding parse_gemini_def by (elim bindE_InrE)
  with gemini(1) finish_main_frame(1)[of B s0 s] show ?thesis by (simp add: collect_def)
next
  case (codex fmt)
  from codex(4) obtain s0 where "codex_records B t = Inr s0" "finish_main B s0 = Inr s"
    unfolding parse_codex_def by (elim bindE_InrE)
  with codex(1-3) finish_main_frame(1)[of B s0 s] show ?thesis by (simp add: collect_def)
qed

lemma normalize_ex_codex_nan: "normalize B ex_codex_nan = Inr ex_codex_nan_session"
  by (simp add: normalize_def auto_detect_def ex_codex_nan_def detect_record_def
      parse_codex_def codex_records_def read_jsonl_def codex_record_def codex_response_item_def
      finish_main_def sort_events_def append_event_def mk_session_def
      ex_codex_nan_session_def mk_event_def mk_agent_def)

text \<open>
  C1 claims that the events of every session that \<open>parse\<close> returns are in non-decreasing
  order of timestamp. The sort compares the timestamps as the file gives them, and no
  comparison with a NaN is true: on the rollout with the timestamps 2, NaN and 1 the sort
  finds nothing to move and returns the events as they were appended, the event of
  timestamp 2 before the event of timestamp 1.
\<close>

theorem parse_events_unsorted:
  "fst (parse ex_builtins ex_codex_nan []) = Inr ex_codex_nan_session
   \<and> map timestamp (events ex_codex_nan_session) = [JInt 2, JFloat NaN, JInt 1]
   \<and> flt_lt (flt_of (JInt 1)) (flt_of (JInt 2))"
proof -
  have "map_of ([] :: cache) (cache_key ex_codex_nan) = None" by simp
  then have "parse ex_builtins ex_codex_nan []
      = (Inr ex_codex_nan_session,
         evict (cache_key ex_codex_nan) [] @ [(cache_key ex_codex_nan, ex_codex_nan_session)])"
    using normalize_ex_codex_nan by (rule parse_miss)
  then show ?thesis by (simp add: ex_codex_nan_session_def mk_event_def)
qed

text \<open>
  C1, amended. When the timestamps of the events of the session that \<open>parse\<close> returns
  (from a cache that calls of \<open>parse\<close> can have produced) are all strings, the events are
  in non-decreasing lexicographic order of timestamp, and the sort is stable: the session
  is the one the normalizers give for the file (on a cache hit, for the file as it was
  when the entry was cached, under the same path and modification time), and the events
  of any one timestamp are in the order in which the normalizer of that file appended
  them (main file first, then the sub-agent files), however the events of the agents
  interleave.
\<close>

theorem parse_events_sorted:
  assumes "sort_rearranges B" and "reachable B c" and "parse B t c = (Inr s, c')"
    and "list_all (\<lambda>e. is_str (timestamp e)) (events s)"
  shows "sorted (map (\<lambda>e. str_of (timestamp e)) (events s))
         \<and> (\<exists>t0 raw. cache_key t0 = cache_key t \<and> (map_of c (cache_key t) = None \<longrightarrow> t0 = t)
              \<and> normalize B t0 = Inr s \<and> collect B t0 = Inr raw
              \<and> (\<forall>k. filter (\<lambda>e. timestamp e = k) (events s) = filter (\<lambda>e. timestamp e = k) raw))"
proof -
  from assms(2,3) obtain t0 where t0: "cache_key t0 = cache_key t"
    "map_of c (cache_key t) = None \<longrightarrow> t0 = t" "normalize B t0 = Inr s"
    by (blast dest: parse_returns_normalized)
  from t0(3) obtain raw where raw: "collect B t0 = Inr raw" "sort_events B raw = Inr (events s)"
    by (blast dest: normalize_collect)
  from assms(1) raw(2) assms(4) have r: "events s = sort_key (\<lambda>e. str_of (timestamp e)) raw"
    by (rule sort_events_strings_result)
  have srt: "sorted (map (\<lambda>e. str_of (timestamp e)) (events s))"
    unfolding r by (rule sorted_sort_key)
  have "\<forall>k. filter (\<lambda>e. timestamp e = k) (events s) = filter (\<lambda>e. timestamp e = k) raw"
    unfolding r by (simp add: filter_sort_key_factor[of timestamp _ str_of raw])
  with t0 raw(1) have "cache_key t0 = cache_key t \<and> (map_of c (cache_key t) = None \<longrightarrow> t0 = t)
      \<and> normalize B t0 = Inr s \<and> collect B t0 = Inr raw
      \<and> (\<forall>k. filter (\<lambda>e. timestamp e = k) (events s) = filter (\<lambda>e. timestamp e = k) raw)"
    by simp
  then have "\<exists>t0 raw. cache_key t0 = cache_key t \<and> (map_of c (cache_key t) = None \<longrightarrow> t0 = t)
      \<and> normalize B t0 = Inr s \<and> collect B t0 = Inr raw
      \<and> (\<forall>k. filter (\<lambda>e. timestamp e = k) (events s) = filter (\<lambda>e. timestamp e = k) raw)"
    by (intro exI)
  with srt show ?thesis by (rule conjI)
qed

text \<open>
  In the session with one sub-agent the normalizer appends the two events of the main
  file before the event of the sub-agent; the sort puts the latter between them.
\<close>

lemma collect_ex_claude_sub:
  "collect B ex_claude_sub = Inr [mk_event (JStr ''2024-01-01T00:00:01Z'') USER ''main'' (JStr ''hello''),
                mk_event (JStr ''2024-01-01T00:00:03Z'') TEXT ''main'' (JStr ''done''),
                mk_event (JStr ''2024-01-01T00:00:02Z'') USER ''abc12345'' (JStr ''sub task'')]"
  by (simp add: collect_def auto_detect_ex_claude_sub claude_records_ex_claude_sub)

lemma strings_ex_claude_sub: "list_all (\<lambda>e. is_str (timestamp e)) (events ex_claude_sub_session)"
  by (simp add: ex_claude_sub_session_def mk_event_def)

theorem parse_events_sorted_witness:
  "sort_rearranges ex_builtins \<and> reachable ex_builtins []
   \<and> parse ex_builtins ex_claude_sub []
       = (Inr ex_claude_sub_session, [((''/logs/c2.jsonl'', 1), ex_claude_sub_session)])
   \<and> list_all (\<lambda>e. is_str (timestamp e)) (events ex_claude_sub_session)
   \<and> map (\<lambda>e. str_of (timestamp e)) (events ex_claude_sub_session)
       = [''2024-01-01T00:00:01Z'', ''2024-01-01T00:00:02Z'', ''2024-01-01T00:00:03Z'']
   \<and> sorted (map (\<lambda>e. str_of (timestamp e)) (events ex_claude_sub_session))
   \<and> map_sum id (map (\<lambda>e. str_of (timestamp e))) (collect ex_builtins ex_claude_sub)
       = Inr [''2024-01-01T00:00:01Z'', ''2024-01-01T00:00:03Z'', ''2024-01-01T00:00:02Z'']"
  using parse_events_sorted[OF sort_rearranges_ex_builtins reachable_empty[of ex_builtins]
      parse_ex_claude_sub[of ex_builtins] strings_ex_claude_sub]
    sort_rearranges_ex_builtins parse_ex_claude_sub[of ex_builtins] reachable_empty[of ex_builtins]
    strings_ex_claude_sub collect_ex_claude_sub[of ex_builtins]
  by (simp add: ex_claude_sub_session_def mk_event_def)

subsection \<open>Merging a sub-agent file\<close>

lemma merge_collect:
  assumes "strip ca \<noteq> []" "strip cb \<noteq> []" "strip c2 \<noteq> []"
  shows "\<exists>s0. claude_records B (merge_scenario sid ta ca tb cb aid t2 c2)
     = Inr (s0, [user_message [(''sessionId'', JStr sid)] ta ca, user_message [(''sessionId'', JStr sid)] tb cb])
     \<and> events s0 = [mk_event (JStr ta) USER ''main'' (JStr ca), mk_event (JStr tb) USER ''main'' (JStr cb),
                     mk_event (JStr t2) USER aid (JStr c2)]"
  using assms
  by (simp add: merge_scenario_def user_message_def
      claude_records_def read_jsonl_def discover_subagents_def register_subagent_def
      process_subagent_def process_lines_def process_rec_def user_record_def
      append_event_def mk_session_def)

lemma merge_sort:
  assumes "t1 < t2" "t2 < t3"
    and "(ta, ca, tb, cb) = (t1, c1, t3, c3) \<or> (ta, ca, tb, cb) = (t3, c3, t1, c1)"
  shows "sort_events B [mk_event (JStr ta) USER ''main'' (JStr ca), mk_event (JStr tb) USER ''main'' (JStr cb),
                     mk_event (JStr t2) USER aid (JStr c2)]
     = Inr [mk_event (JStr t1) USER ''main'' (JStr c1), mk_event (JStr t2) USER aid (JStr c2),
            mk_event (JStr t3) USER ''main'' (JStr c3)]"
proof -
  from assms(1,2) have "t1 < t3" by (rule less_trans)
  with assms(1,2) have o: "t1 \<le> t2" "t2 \<le> t3" "t1 \<le> t3" "\<not> t2 \<le> t1" "\<not> t3 \<le> t2" "\<not> t3 \<le> t1"
    by simp_all
  from assms(3) show ?thesis
    by (auto simp: sort_events_def mk_event_def o)
qed

lemma set_metadata_merge:
  "\<exists>s'. set_metadata [user_message [(''sessionId'', JStr sid)] ta ca, user_message [(''sessionId'', JStr sid)] tb cb] s = Inr s'"
  by (simp add: user_message_def)

text \<open>
  C8. A Claude Code main file has two user messages, at timestamps \<open>t1\<close> and \<open>t3\<close> in
  either order in the file, and the sub-agent file found beside it has one user message
  at \<open>t2\<close>, with \<open>t1 < t2 < t3\<close>. Then the session has exactly three events, in the order
  \<open>t1\<close>, \<open>t2\<close>, \<open>t3\<close>; the one at \<open>t2\<close> belongs to the agent id of the sub-agent file and
  the other two to \<open>main\<close>.
\<close>

theorem subagent_merge_order:
  assumes "t1 < t2" and "t2 < t3"
    and "strip c1 \<noteq> []" and "strip c2 \<noteq> []" and "strip c3 \<noteq> []"
    and "(ta, ca, tb, cb) = (t1, c1, t3, c3) \<or> (ta, ca, tb, cb) = (t3, c3, t1, c1)"
  shows "\<exists>s. normalize B (merge_scenario sid ta ca tb cb aid t2 c2) = Inr s
           \<and> events s = [mk_event (JStr t1) USER ''main'' (JStr c1),
                          mk_event (JStr t2) USER aid (JStr c2),
                          mk_event (JStr t3) USER ''main'' (JStr c3)]"
proof -
  let ?t = "merge_scenario sid ta ca tb cb aid t2 c2"
  let ?recs = "[user_message [(''sessionId'', JStr sid)] ta ca, user_message [(''sessionId'', JStr sid)] tb cb]"
  let ?sorted = "[mk_event (JStr t1) USER ''main'' (JStr c1), mk_event (JStr t2) USER aid (JStr c2),
                  mk_event (JStr t3) USER ''main'' (JStr c3)]"
  from assms(3,5,6) have "strip ca \<noteq> []" "strip cb \<noteq> []" by auto
  with assms(4) obtain s0 where c: "claude_records B ?t = Inr (s0, ?recs)"
    and e0: "events s0 = [mk_event (JStr ta) USER ''main'' (JStr ca), mk_event (JStr tb) USER ''main'' (JStr cb),
                     mk_event (JStr t2) USER aid (JStr c2)]"
    using merge_collect[of ca cb c2 B sid ta tb aid t2] by blast
  have so: "sort_events B (events s0) = Inr ?sorted"
    unfolding e0 using assms(1,2,6) by (rule merge_sort)
  obtain s1 where m: "set_metadata ?recs (s0\<lparr>events := ?sorted\<rparr>) = Inr s1"
    using set_metadata_merge by blast
  define s where "s = fold (\<lambda>e s'. set_spawn_time s' e) ?sorted s1"
  have p: "parse_claude_code B ?t = Inr s"
    by (simp only: parse_claude_code_def c so m s_def bindE_Inr prod.case)
  have "events s = ?sorted"
    using set_metadata_frame[OF m] fold_set_spawn_time_frame[of ?sorted s1] by (simp add: s_def)
  moreover have "auto_detect ?t = Inr ''claude_code''"
    by (simp add: auto_detect_def merge_scenario_def user_message_def detect_record_def)
  then have "normalize B ?t = Inr s" by (simp add: normalize_def p)
  ultimately show ?thesis by blast
qed

text \<open>The main file has the message of second 3 before the message of second 1.\<close>

theorem subagent_merge_order_witness:
  "(''2024-01-01T00:00:01Z'' :: string) < ''2024-01-01T00:00:02Z''
   \<and> (''2024-01-01T00:00:02Z'' :: string) < ''2024-01-01T00:00:03Z''
   \<and> strip ''a'' \<noteq> [] \<and> strip ''b'' \<noteq> [] \<and> strip ''c'' \<noteq> []
   \<and> map (\<lambda>e. (timestamp e, agent_id e))
        (case normalize ex_builtins
                (merge_scenario ''s1'' ''2024-01-01T00:00:03Z'' ''c'' ''2024-01-01T00:00:01Z'' ''a''
                   ''abc12345'' ''2024-01-01T00:00:02Z'' ''b'') of
           Inr s \<Rightarrow> events s | Inl e \<Rightarrow> [])
       = [(JStr ''2024-01-01T00:00:01Z'', ''main''), (JStr ''2024-01-01T00:00:02Z'', ''abc12345''),
          (JStr ''2024-01-01T00:00:03Z'', ''main'')]"
proof -
  have h: "(''2024-01-01T00:00:01Z'' :: string) < ''2024-01-01T00:00:02Z''"
    "(''2024-01-01T00:00:02Z'' :: string) < ''2024-01-01T00:00:03Z''"
    "strip ''a'' \<noteq> []" "strip ''b'' \<noteq> []" "strip ''c'' \<noteq> []"
    by (simp_all add: strip_def is_space_def)
  from subagent_merge_order[OF h, of "''2024-01-01T00:00:03Z''" "''c''" "''2024-01-01T00:00:01Z''" "''a''"
      ex_builtins "''s1''" "''abc12345''"] h
  show ?thesis by (auto simp: mk_event_def)
qed

subsection \<open>The start time of a session\<close>

lemma normalize_ex_codex_no_timestamp: "normalize B ex_codex_no_timestamp = Inr ex_codex_no_timestamp_session"
  by (simp add: normalize_def auto_detect_def ex_codex_no_timestamp_def detect_record_def
      parse_codex_def codex_records_def read_jsonl_def codex_record_def codex_response_item_def
      finish_main_def sort_events_def append_event_def mk_session_def
      ex_codex_no_timestamp_session_def mk_event_def mk_agent_def)

text \<open>
  \<open>parse_claude_code\<close> takes the start time from the first user or assistant record that
  has a \<open>sessionId\<close> and has no other source for it: without such a record the start time
  stays empty, whatever the events are.
\<close>

lemma claude_start_time_without_session_id:
  "map_sum id (\<lambda>s. (start_time s, map timestamp (events s))) (normalize B ex_claude_no_session_id)
     = Inr (JStr [], [JStr ''2024-01-01T00:00:01Z''])"
  by (simp add: normalize_def auto_detect_def ex_claude_no_session_id_def detect_record_def
      parse_claude_code_def claude_records_def read_jsonl_def discover_subagents_def
      process_lines_def process_rec_def user_record_def strip_def is_space_def
      sort_events_def append_event_def mk_session_def set_spawn_time_def mk_event_def mk_agent_def)

lemma keeps_start_simps [simp]:
  "keeps_start s s" "keeps_start s (append_event s e)"
  by (simp_all add: keeps_start_def append_event_def)

lemma keeps_start_trans: "keeps_start a b \<Longrightarrow> keeps_start b c \<Longrightarrow> keeps_start a c"
  by (simp add: keeps_start_def)

lemma keeps_start_add_tokens: "add_tokens B k i out c s = Inr s' \<Longrightarrow> keeps_start s s'"
  by (simp add: keeps_start_def add_tokens_frame)

lemma codex_response_item_start: "codex_response_item B s rec ts = Inr s' \<Longrightarrow> keeps_start s s'"
  unfolding codex_response_item_def by (auto elim!: bindE_InrE split: if_splits)

lemma codex_event_msg_start: "codex_event_msg B s rec = Inr s' \<Longrightarrow> keeps_start s s'"
  unfolding codex_event_msg_def
  by (auto elim!: bindE_InrE dest!: keeps_start_add_tokens split: if_splits)

lemma field_dget [simp]: "dget rec k d = Inr v \<Longrightarrow> field rec k d = v"
  by (simp add: field_def)

lemma codex_record_start:
  assumes "codex_record B s rec = Inr s'"
  shows "start_time s' = (case codex_start rec of Some v \<Rightarrow> v | None \<Rightarrow> start_time s)"
  using assms unfolding codex_record_def codex_start_def
  by (auto elim!: bindE_InrE dest!: codex_response_item_start codex_event_msg_start
      simp: keeps_start_def append_event_def split: if_splits)


lemma foldE_latest:
  assumes "foldE f s xs = Inr s'"
    and "\<And>s x s'. f s x = Inr s' \<Longrightarrow> start_time s' = (case h x of Some v \<Rightarrow> v | None \<Rightarrow> start_time s)"
    and "start_time s = (case acc of Some v \<Rightarrow> v | None \<Rightarrow> JStr [])"
  shows "start_time s' = (case latest h acc xs of Some v \<Rightarrow> v | None \<Rightarrow> JStr [])"
  using assms(1,3)
proof (induction xs arbitrary: s acc)
  case Nil
  then show ?case by simp
next
  case (Cons x xs)
  from Cons.prems(1) obtain s1 where x: "f s x = Inr s1" and xs: "foldE f s1 xs = Inr s'"
    by (auto elim!: bindE_InrE)
  from assms(2)[OF x] Cons.prems(2)
  have "start_time s1 = (case (case h x of Some v \<Rightarrow> Some v | None \<Rightarrow> acc) of Some v \<Rightarrow> v | None \<Rightarrow> JStr [])"
    by (simp split: option.splits)
  with xs have "start_time s' = (case latest h (case h x of Some v \<Rightarrow> Some v | None \<Rightarrow> acc) xs of
      Some v \<Rightarrow> v | None \<Rightarrow> JStr [])"
    by (rule Cons.IH)
  then show ?case by simp
qed

lemma foldE_keeps_start:
  assumes "foldE f s xs = Inr s'" and "\<And>s x s'. f s x = Inr s' \<Longrightarrow> keeps_start s s'"
  shows "keeps_start s s'"
  using assms(1) by (rule foldE_rel) (auto intro: assms(2) keeps_start_trans)

lemma finish_main_start:
  assumes "finish_main B s = Inr s'"
  shows "start_time s' = (if truthy (start_time s) \<or> events s' = [] then start_time s
                          else timestamp (hd (events s')))"
  using assms unfolding finish_main_def
  by (auto elim!: bindE_InrE split: list.splits)

lemma gemini_part_start: "gemini_part B role ts s part = Inr s' \<Longrightarrow> keeps_start s s'"
  unfolding gemini_part_def gemini_text_event_def gemini_call_event_def gemini_response_event_def
  by (auto elim!: bindE_InrE simp: keeps_start_def append_event_def split: if_splits)

lemma gemini_message_start: "gemini_message B s msg = Inr s' \<Longrightarrow> keeps_start s s'"
  unfolding gemini_message_def
  by (auto elim!: bindE_InrE split: if_splits intro: foldE_keeps_start gemini_part_start)

lemma gemini_block_start: "gemini_block B ts st block = Inr st' \<Longrightarrow> keeps_start (fst st) (fst st')"
  unfolding gemini_block_def
  by (cases st) (auto elim!: bindE_InrE simp: Let_def split: if_splits)

lemma gemini_record_start:
  assumes "gemini_record B s rec = Inr s'"
  shows "start_time s' = (case gemini_start rec of Some v \<Rightarrow> v | None \<Rightarrow> start_time s)"
proof -
  have blocks: "start_time (fst st') = start_time s"
    if "foldE (gemini_block B ts) (s, []) blocks = Inr st'" for ts blocks st'
  proof -
    have "keeps_start (fst (s, [] :: string list)) (fst st')"
      using that
      by (rule foldE_rel[where R="\<lambda>a b. keeps_start (fst a) (fst b)"])
        (auto intro: gemini_block_start keeps_start_trans)
    then show ?thesis by (simp add: keeps_start_def)
  qed
  show ?thesis
    using assms unfolding gemini_record_def gemini_start_def
    by (auto elim!: bindE_InrE dest!: blocks keeps_start_add_tokens
        simp: keeps_start_def append_event_def split: if_splits)
qed


lemma read_jsonl_Inr: "read_jsonl f = Inr recs \<Longrightarrow> \<exists>ls. f = Some ls \<and> recs = records_of ls"
  by (auto simp: read_jsonl_def split: option.splits)

lemma codex_records_start:
  assumes "codex_records B t = Inr s0" "fmt \<noteq> ''claude_code''" "fmt \<noteq> ''gemini''"
  shows "start_time s0 = (case recorded_start fmt t of Some v \<Rightarrow> v | None \<Rightarrow> JStr [])"
proof -
  from assms(1) obtain ls where ls: "lines_of t = Some ls"
    and f: "foldE (codex_record B)
         ((mk_session (JStr (stem t)))\<lparr>agents := [(''main'', mk_agent ''main'' ''Codex'' False ''green'')]\<rparr>)
         (records_of ls) = Inr s0"
    unfolding codex_records_def by (auto elim!: bindE_InrE dest!: read_jsonl_Inr)
  from f have "start_time s0 = (case latest codex_start None (records_of ls) of Some v \<Rightarrow> v | None \<Rightarrow> JStr [])"
    by (rule foldE_latest) (simp_all add: codex_record_start mk_session_def)
  with ls assms(2,3) show ?thesis by (simp add: recorded_start_def)
qed

lemma parse_gemini_json_start:
  assumes "parse_gemini_json B t s = Inr s'" "start_time s = JStr []"
  shows "start_time s' = (case (case doc t of
              Document data \<Rightarrow>
                if is_dict data
                then Some (field data ''startTime'' (field data ''createTime'' (JStr [])))
                else None
            | _ \<Rightarrow> None) of Some v \<Rightarrow> v | None \<Rightarrow> JStr [])"
proof -
  have step: "start_time s' = start_time s1" if "foldE (gemini_message B) s1 msgs = Inr s'" for s1 msgs
    using foldE_keeps_start[OF that gemini_message_start] by (simp add: keeps_start_def)
  show ?thesis
    using assms unfolding parse_gemini_json_def
    by (auto elim!: bindE_InrE split: document.splits if_splits dest!: step)
qed

lemma gemini_records_start:
  assumes "gemini_records B t = Inr s0"
  shows "start_time s0 = (case recorded_start ''gemini'' t of Some v \<Rightarrow> v | None \<Rightarrow> JStr [])"
proof (cases "suffix t = ''.json''")
  case True
  with assms parse_gemini_json_start[of B t _ s0] show ?thesis
    by (simp add: gemini_records_def recorded_start_def mk_session_def)
next
  case False
  with assms obtain ls where ls: "lines_of t = Some ls"
    and f: "foldE (gemini_record B)
         ((mk_session (JStr (stem t)))\<lparr>agents := [(''main'', mk_agent ''main'' ''Gemini'' False ''blue'')]\<rparr>)
         (records_of ls) = Inr s0"
    unfolding gemini_records_def parse_gemini_jsonl_def
    by (auto elim!: bindE_InrE dest!: read_jsonl_Inr)
  from f have "start_time s0 = (case latest gemini_start None (records_of ls) of Some v \<Rightarrow> v | None \<Rightarrow> JStr [])"
    by (rule foldE_latest) (simp_all add: gemini_record_start mk_session_def)
  with ls False show ?thesis by (simp add: recorded_start_def)
qed

lemma set_metadata_start:
  assumes "set_metadata recs s = Inr s'"
  shows "start_time s' = (case earliest claude_start recs of Some v \<Rightarrow> v | None \<Rightarrow> start_time s)"
  using assms
  by (induction recs) (auto elim!: bindE_InrE simp: claude_start_def split: if_splits)

lemma fold_set_spawn_time_start:
  "start_time (fold (\<lambda>e s'. set_spawn_time s' e) evs s) = start_time s"
  by (induction evs arbitrary: s) (auto simp: set_spawn_time_def split: option.splits)

lemma claude_records_recs:
  assumes "claude_records B t = Inr (s0, recs)"
  shows "\<exists>ls. lines_of t = Some ls \<and> recs = records_of ls"
  using assms unfolding claude_records_def
  by (auto elim!: bindE_InrE dest!: read_jsonl_Inr split: prod.splits)

lemma parse_claude_code_start:
  assumes "parse_claude_code B t = Inr s" "recorded_start ''claude_code'' t = Some r"
  shows "start_time s = r"
proof -
  from assms(1) obtain s0 recs evs s1 where c: "claude_records B t = Inr (s0, recs)"
    and m: "set_metadata recs (s0\<lparr>events := evs\<rparr>) = Inr s1"
    and s: "s = fold (\<lambda>e s'. set_spawn_time s' e) evs s1"
    unfolding parse_claude_code_def by (auto elim!: bindE_InrE split: prod.splits)
  from claude_records_recs[OF c] assms(2) have "earliest claude_start recs = Some r"
    by (auto simp: recorded_start_def)
  with set_metadata_start[OF m] have "start_time s1 = r" by simp
  then show ?thesis by (simp add: s fold_set_spawn_time_start)
qed

text \<open>
  C4, amended. For the session that \<open>parse\<close> computes for a file (the one the normalizer
  of its dialect returns): when the dialect records a start time for the session and it
  is not empty, the start time of the session is that recorded one. Otherwise, for the
  Codex and Gemini dialects, it is the timestamp of the first event of the sorted list
  when the session has an event (an empty timestamp if the record of that event had
  none), and the empty or missing recorded value when it has none.
\<close>

theorem start_time_resolved:
  assumes "auto_detect t = Inr fmt" and "normalize B t = Inr s"
  shows "(\<forall>r. recorded_start fmt t = Some r \<and> truthy r \<longrightarrow> start_time s = r)
       \<and> (fmt \<noteq> ''claude_code'' \<and> (\<forall>r. recorded_start fmt t = Some r \<longrightarrow> \<not> truthy r) \<longrightarrow>
            start_time s = (if events s = []
                            then (case recorded_start fmt t of Some r \<Rightarrow> r | None \<Rightarrow> JStr [])
                            else timestamp (hd (events s))))"
  using assms(2)
proof (cases rule: normalize_cases)
  case claude
  with assms(1) have "fmt = ''claude_code''" by simp
  with claude(2) show ?thesis by (auto intro: parse_claude_code_start)
next
  case gemini
  with assms(1) have fmt: "fmt = ''gemini''" by simp
  from gemini(2) obtain s0 where "gemini_records B t = Inr s0" "finish_main B s0 = Inr s"
    unfolding parse_gemini_def by (elim bindE_InrE)
  with gemini_records_start[of B t s0] finish_main_start[of B s0 s] show ?thesis
    unfolding fmt by (auto split: option.splits)
next
  case (codex fmt')
  with assms(1) have fmt: "fmt' = fmt" by simp
  from codex(4) obtain s0 where "codex_records B t = Inr s0" "finish_main B s0 = Inr s"
    unfolding parse_codex_def by (elim bindE_InrE)
  with codex_records_start[of B t s0 fmt] codex(2,3) finish_main_start[of B s0 s] show ?thesis
    unfolding fmt by (auto split: option.splits)
qed


lemma recorded_start_ex_codex:
  "recorded_start ''codex'' (ex_codex m) = Some (JStr ''2024-01-01T00:00:00Z'')"
  by (simp add: recorded_start_def ex_codex_def ex_codex_lines_def codex_start_def field_def)

theorem start_time_resolved_witness:
  "auto_detect (ex_codex 5) = Inr ''codex''
   \<and> normalize ex_builtins (ex_codex 5) = Inr ex_codex_session
   \<and> recorded_start ''codex'' (ex_codex 5) = Some (JStr ''2024-01-01T00:00:00Z'')
   \<and> truthy (JStr ''2024-01-01T00:00:00Z'')
   \<and> start_time ex_codex_session = JStr ''2024-01-01T00:00:00Z''"
  using start_time_resolved[OF auto_detect_ex_codex[of 5] normalize_ex_codex[of ex_builtins 5]]
    auto_detect_ex_codex[of 5] normalize_ex_codex[of ex_builtins 5] recorded_start_ex_codex[of 5]
  by simp

text \<open>
  C4 claims that the start time, when the dialect records none, is the timestamp of the
  earliest event and in particular is never empty when the session has an event. A Codex
  rollout whose only record is a user message without a timestamp gives a session with
  one event and an empty start time.
\<close>

theorem start_time_empty_with_events:
  "fst (parse ex_builtins ex_codex_no_timestamp []) = Inr ex_codex_no_timestamp_session
   \<and> recorded_start ''codex'' ex_codex_no_timestamp = None
   \<and> length (events ex_codex_no_timestamp_session) = 1
   \<and> start_time ex_codex_no_timestamp_session = JStr []"
proof -
  have "map_of ([] :: cache) (cache_key ex_codex_no_timestamp) = None" by simp
  then have "parse ex_builtins ex_codex_no_timestamp []
      = (Inr ex_codex_no_timestamp_session,
         evict (cache_key ex_codex_no_timestamp) []
           @ [(cache_key ex_codex_no_timestamp, ex_codex_no_timestamp_session)])"
    using normalize_ex_codex_no_timestamp by (rule parse_miss)
  then show ?thesis
    by (simp add: ex_codex_no_timestamp_session_def recorded_start_def ex_codex_no_timestamp_def
        codex_start_def field_def)
qed

subsection \<open>Token accounting per request\<close>

lemma normalize_ex_claude_text: "normalize B ex_claude_text = Inr ex_claude_text_session"
  by (simp add: normalize_def auto_detect_def ex_claude_text_def detect_record_def
      parse_claude_code_def claude_records_def read_jsonl_def discover_subagents_def
      process_lines_def process_rec_def assistant_record_def assistant_body_def request_key_def
      count_request_def add_tokens_def py_add_def assistant_block_def strip_def is_space_def
      sort_events_def append_event_def mk_session_def set_spawn_time_def
      ex_claude_text_session_def mk_event_def mk_agent_def)

text \<open>
  C2. The tokens of a request are claimed to be on exactly one of its events, so that the
  sum over its events is what the agent received for the request. Only the thinking and
  tool-use blocks of \<open>_process_lines\<close> call \<open>_event_tokens()\<close>; a text block does not. On the
  transcript whose request \<open>r1\<close> consists of one text block, the agent \<open>main\<close> receives the 10
  input and 5 output tokens of the request, and the only event of the session, the text
  event of that request, carries zeros.
\<close>

theorem claude_text_request_tokens_on_no_event:
  "fst (parse ex_builtins ex_claude_text []) = Inr ex_claude_text_session
   \<and> map (\<lambda>e. (type_ev e, input_tokens e, output_tokens e, cache_read_tokens e))
        (events ex_claude_text_session) = [(TEXT, JInt 0, JInt 0, JInt 0)]
   \<and> map (\<lambda>ka. (fst ka, input_tokens_ag (snd ka), output_tokens_ag (snd ka),
                  cache_read_tokens_ag (snd ka)))
        (agents ex_claude_text_session) = [(''main'', JInt 10, JInt 5, JInt 0)]"
proof -
  have "map_of ([] :: cache) (cache_key ex_claude_text) = None" by simp
  then have "parse ex_builtins ex_claude_text []
      = (Inr ex_claude_text_session,
         evict (cache_key ex_claude_text) [] @ [(cache_key ex_claude_text, ex_claude_text_session)])"
    using normalize_ex_claude_text by (rule parse_miss)
  then show ?thesis by (simp add: ex_claude_text_session_def mk_event_def mk_agent_def)
qed

end
